theory Spec2Isabelle
  imports Complex_Main
begin

section \<open>The schema language of app/models.py\<close>

text \<open>
  The module app/models.py is a list of class declarations: three enumerations, seven
  persisted classes (\<^verbatim>\<open>table=True\<close>) and twelve request classes
  (\<^verbatim>\<open>table=False\<close>). Every class is a list of annotated attributes, most of them
  with a \<^verbatim>\<open>Field(...)\<close> that carries a default and constraint keywords. The theory
  keeps each class as the datum it is (its attributes in source order, each with its
  annotation, its default and its keywords) and gives the keywords their meaning once,
  in a validator and a constructor that work for every class.
\<close>

subsection \<open>Values\<close>

text \<open>
  A Python \<^verbatim>\<open>str\<close> is a sequence of Unicode code points, and \<^verbatim>\<open>len\<close> counts code
  points; a HOL \<^typ>\<open>char\<close> is a byte. So a string value is a list of code points, and
  \<open>ustr\<close> reads an ASCII literal as one.
\<close>

type_synonym ustr = "nat list"

definition ustr :: "string \<Rightarrow> ustr" where
  "ustr s = map (of_char :: char \<Rightarrow> nat) s"

text \<open>
  The values a field can hold. \<^verbatim>\<open>Decimal\<close> values are finite decimal numbers, which
  are rationals; \<^verbatim>\<open>datetime\<close> values are points on a time line; \<^verbatim>\<open>Dict[str, Any]\<close>
  values are association lists.
\<close>

datatype val =
    VNone
  | VBool bool
  | VInt int
  | VDec rat
  | VStr ustr
  | VDatetime int
  | VDict "(ustr \<times> val) list"

subsection \<open>Enumerations\<close>

text \<open>
  \<^verbatim>\<open>class ServiceType(str, Enum)\<close>: the members in source order, each with its name
  and its string value. The members are strings themselves (the \<^verbatim>\<open>str\<close> mixin).
\<close>

datatype enum_cls = EnumCls (ename: string) (members: "(string \<times> string) list")

definition ServiceType :: enum_cls where
  "ServiceType = EnumCls ''ServiceType''
     [(''TTS'', ''tts''), (''STT'', ''stt''), (''LLM'', ''llm'')]"

definition AgentStatus :: enum_cls where
  "AgentStatus = EnumCls ''AgentStatus''
     [(''DRAFT'', ''draft''), (''ACTIVE'', ''active''), (''INACTIVE'', ''inactive'')]"

definition TestSessionStatus :: enum_cls where
  "TestSessionStatus = EnumCls ''TestSessionStatus''
     [(''ACTIVE'', ''active''), (''COMPLETED'', ''completed''), (''FAILED'', ''failed'')]"

definition enum_values :: "enum_cls \<Rightarrow> ustr list" where
  "enum_values e = map (\<lambda>(n, v). ustr v) (members e)"

subsection \<open>Regular expressions\<close>

text \<open>
  The one pattern of the module,
  \<^verbatim>\<open>^[a-zA-Z0-9_.+-]+@[a-zA-Z0-9-]+\.[a-zA-Z0-9-.]+$\<close>,
  is a sequence of items between the anchors: a character class repeated one or more
  times, or one literal character. A pattern is the list of its items. The anchors are
  Python's: \<^verbatim>\<open>^\<close> is the start of the string, and \<^verbatim>\<open>$\<close> is its end or the place
  just before a newline (code point 10) that ends it.
\<close>

datatype cls_item = CRange char char | CChar char

type_synonym char_class = "cls_item list"

datatype re_item = RPlus char_class | RLit char

type_synonym pattern = "re_item list"

fun in_item :: "nat \<Rightarrow> cls_item \<Rightarrow> bool" where
  "in_item c (CRange lo hi) = (of_char lo \<le> c \<and> c \<le> of_char hi)"
| "in_item c (CChar x) = (c = of_char x)"

definition in_class :: "char_class \<Rightarrow> nat \<Rightarrow> bool" where
  "in_class cls c = list_ex (in_item c) cls"


definition email_regex :: pattern where
  "email_regex =
     [RPlus [CRange CHR ''a'' CHR ''z'', CRange CHR ''A'' CHR ''Z'', CRange CHR ''0'' CHR ''9'',
             CChar CHR ''_'', CChar CHR ''.'', CChar CHR ''+'', CChar CHR ''-''],
      RLit CHR ''@'',
      RPlus [CRange CHR ''a'' CHR ''z'', CRange CHR ''A'' CHR ''Z'', CRange CHR ''0'' CHR ''9'',
             CChar CHR ''-''],
      RLit CHR ''.'',
      RPlus [CRange CHR ''a'' CHR ''z'', CRange CHR ''A'' CHR ''Z'', CRange CHR ''0'' CHR ''9'',
             CChar CHR ''-'', CChar CHR ''.'']]"

subsection \<open>Field declarations\<close>

datatype ftype =
    TInt
  | TStr
  | TBool
  | TDecimal
  | TDatetime
  | TDict
  | TEnum enum_cls
  | TOptional ftype

text \<open>
  The default of an attribute: none (the attribute is required), \<^verbatim>\<open>default=v\<close>, or
  \<^verbatim>\<open>default_factory=datetime.utcnow\<close>.
\<close>

datatype default = Required | Default val | DefaultFactory_utcnow

text \<open>The keywords of \<^verbatim>\<open>Field\<close> other than the default.\<close>

datatype constraint =
    PrimaryKey
  | Unique
  | ForeignKey string
  | MaxLength nat
  | MinLength nat
  | Regex pattern
  | Ge rat
  | Le rat
  | SaColumnJSON

datatype field_decl =
  FieldDecl (fname: string) (ftyp: ftype) (fdefault: default) (cons: "constraint list")

text \<open>
  A class: its name, its \<^verbatim>\<open>table\<close> flag, its \<^verbatim>\<open>__tablename__\<close>, its attributes and
  its relationships (attribute, target class, \<^verbatim>\<open>back_populates\<close>).
\<close>

record model =
  mname :: string
  table :: bool
  tablename :: "string option"
  model_fields :: "field_decl list"
  relationships :: "(string \<times> string \<times> string) list"

definition field_names :: "model \<Rightarrow> string list" where
  "field_names m = map fname (model_fields m)"

subsection \<open>Persistent models (stored in database)\<close>

definition User :: model where
  "User = \<lparr>mname = ''User'', table = True, tablename = Some ''users'',
     model_fields =
      [FieldDecl ''id'' (TOptional TInt) (Default VNone) [PrimaryKey],
       FieldDecl ''email'' TStr Required [Unique, MaxLength 255, Regex email_regex],
       FieldDecl ''username'' TStr Required [Unique, MaxLength 50],
       FieldDecl ''full_name'' TStr Required [MaxLength 100],
       FieldDecl ''password_hash'' TStr Required [MaxLength 255],
       FieldDecl ''is_active'' TBool (Default (VBool True)) [],
       FieldDecl ''created_at'' TDatetime DefaultFactory_utcnow [],
       FieldDecl ''updated_at'' TDatetime DefaultFactory_utcnow []],
     relationships =
      [(''agents'', ''Agent'', ''user''),
       (''test_sessions'', ''TestSession'', ''user'')]\<rparr>"

definition AIService :: model where
  "AIService = \<lparr>mname = ''AIService'', table = True, tablename = Some ''ai_services'',
     model_fields =
      [FieldDecl ''id'' (TOptional TInt) (Default VNone) [PrimaryKey],
       FieldDecl ''name'' TStr Required [MaxLength 100],
       FieldDecl ''service_type'' (TEnum ServiceType) Required [],
       FieldDecl ''provider'' TStr Required [MaxLength 100],
       FieldDecl ''is_active'' TBool (Default (VBool True)) [],
       FieldDecl ''description'' TStr (Default (VStr [])) [MaxLength 500],
       FieldDecl ''default_config'' TDict (Default (VDict [])) [SaColumnJSON],
       FieldDecl ''created_at'' TDatetime DefaultFactory_utcnow []],
     relationships =
      [(''agent_configurations'', ''AgentServiceConfig'', ''service'')]\<rparr>"

definition Agent :: model where
  "Agent = \<lparr>mname = ''Agent'', table = True, tablename = Some ''agents'',
     model_fields =
      [FieldDecl ''id'' (TOptional TInt) (Default VNone) [PrimaryKey],
       FieldDecl ''user_id'' TInt Required [ForeignKey ''users.id''],
       FieldDecl ''name'' TStr Required [MaxLength 100],
       FieldDecl ''description'' TStr (Default (VStr [])) [MaxLength 500],
       FieldDecl ''system_message'' TStr (Default (VStr [])) [MaxLength 2000],
       FieldDecl ''status'' (TEnum AgentStatus) (Default (VStr (ustr ''draft''))) [],
       FieldDecl ''voice_pitch'' TDecimal (Default (VDec 1)) [Ge (1 / 10), Le 2],
       FieldDecl ''voice_speed'' TDecimal (Default (VDec 1)) [Ge (1 / 10), Le 3],
       FieldDecl ''voice_volume'' TDecimal (Default (VDec 1)) [Ge (1 / 10), Le 2],
       FieldDecl ''response_timeout'' TInt (Default (VInt 30)) [Ge 5, Le 300],
       FieldDecl ''max_conversation_length'' TInt (Default (VInt 50)) [Ge 1, Le 1000],
       FieldDecl ''created_at'' TDatetime DefaultFactory_utcnow [],
       FieldDecl ''updated_at'' TDatetime DefaultFactory_utcnow []],
     relationships =
      [(''user'', ''User'', ''agents''),
       (''service_configs'', ''AgentServiceConfig'', ''agent''),
       (''api_keys'', ''APIKey'', ''agent''),
       (''test_sessions'', ''TestSession'', ''agent'')]\<rparr>"

definition AgentServiceConfig :: model where
  "AgentServiceConfig = \<lparr>mname = ''AgentServiceConfig'', table = True,
     tablename = Some ''agent_service_configs'',
     model_fields =
      [FieldDecl ''id'' (TOptional TInt) (Default VNone) [PrimaryKey],
       FieldDecl ''agent_id'' TInt Required [ForeignKey ''agents.id''],
       FieldDecl ''service_id'' TInt Required [ForeignKey ''ai_services.id''],
       FieldDecl ''config'' TDict (Default (VDict [])) [SaColumnJSON],
       FieldDecl ''is_primary'' TBool (Default (VBool False)) [],
       FieldDecl ''created_at'' TDatetime DefaultFactory_utcnow [],
       FieldDecl ''updated_at'' TDatetime DefaultFactory_utcnow []],
     relationships =
      [(''agent'', ''Agent'', ''service_configs''),
       (''service'', ''AIService'', ''agent_configurations'')]\<rparr>"

definition APIKey :: model where
  "APIKey = \<lparr>mname = ''APIKey'', table = True, tablename = Some ''api_keys'',
     model_fields =
      [FieldDecl ''id'' (TOptional TInt) (Default VNone) [PrimaryKey],
       FieldDecl ''agent_id'' TInt Required [ForeignKey ''agents.id''],
       FieldDecl ''key_hash'' TStr Required [Unique, MaxLength 255],
       FieldDecl ''key_preview'' TStr Required [MaxLength 20],
       FieldDecl ''name'' TStr Required [MaxLength 100],
       FieldDecl ''is_active'' TBool (Default (VBool True)) [],
       FieldDecl ''usage_count'' TInt (Default (VInt 0)) [Ge 0],
       FieldDecl ''last_used_at'' (TOptional TDatetime) (Default VNone) [],
       FieldDecl ''expires_at'' (TOptional TDatetime) (Default VNone) [],
       FieldDecl ''rate_limit_per_hour'' (TOptional TInt) (Default VNone) [Ge 1],
       FieldDecl ''rate_limit_per_day'' (TOptional TInt) (Default VNone) [Ge 1],
       FieldDecl ''created_at'' TDatetime DefaultFactory_utcnow [],
       FieldDecl ''updated_at'' TDatetime DefaultFactory_utcnow []],
     relationships =
      [(''agent'', ''Agent'', ''api_keys'')]\<rparr>"

definition TestSession :: model where
  "TestSession = \<lparr>mname = ''TestSession'', table = True, tablename = Some ''test_sessions'',
     model_fields =
      [FieldDecl ''id'' (TOptional TInt) (Default VNone) [PrimaryKey],
       FieldDecl ''user_id'' TInt Required [ForeignKey ''users.id''],
       FieldDecl ''agent_id'' TInt Required [ForeignKey ''agents.id''],
       FieldDecl ''status'' (TEnum TestSessionStatus) (Default (VStr (ustr ''active''))) [],
       FieldDecl ''session_data'' TDict (Default (VDict [])) [SaColumnJSON],
       FieldDecl ''total_exchanges'' TInt (Default (VInt 0)) [Ge 0],
       FieldDecl ''avg_response_time'' (TOptional TDecimal) (Default VNone) [Ge 0],
       FieldDecl ''total_duration'' (TOptional TInt) (Default VNone) [Ge 0],
       FieldDecl ''error_count'' TInt (Default (VInt 0)) [Ge 0],
       FieldDecl ''last_error'' (TOptional TStr) (Default VNone) [MaxLength 1000],
       FieldDecl ''started_at'' TDatetime DefaultFactory_utcnow [],
       FieldDecl ''ended_at'' (TOptional TDatetime) (Default VNone) [],
       FieldDecl ''created_at'' TDatetime DefaultFactory_utcnow []],
     relationships =
      [(''user'', ''User'', ''test_sessions''),
       (''agent'', ''Agent'', ''test_sessions''),
       (''conversation_logs'', ''ConversationLog'', ''test_session'')]\<rparr>"

definition ConversationLog :: model where
  "ConversationLog = \<lparr>mname = ''ConversationLog'', table = True,
     tablename = Some ''conversation_logs'',
     model_fields =
      [FieldDecl ''id'' (TOptional TInt) (Default VNone) [PrimaryKey],
       FieldDecl ''test_session_id'' TInt Required [ForeignKey ''test_sessions.id''],
       FieldDecl ''sequence_number'' TInt Required [Ge 1],
       FieldDecl ''user_input'' TStr Required [MaxLength 2000],
       FieldDecl ''agent_response'' TStr Required [MaxLength 5000],
       FieldDecl ''processing_time'' TDecimal Required [Ge 0],
       FieldDecl ''tts_processing_time'' (TOptional TDecimal) (Default VNone) [Ge 0],
       FieldDecl ''stt_processing_time'' (TOptional TDecimal) (Default VNone) [Ge 0],
       FieldDecl ''llm_processing_time'' (TOptional TDecimal) (Default VNone) [Ge 0],
       FieldDecl ''audio_input_duration'' (TOptional TDecimal) (Default VNone) [Ge 0],
       FieldDecl ''audio_output_duration'' (TOptional TDecimal) (Default VNone) [Ge 0],
       FieldDecl ''has_error'' TBool (Default (VBool False)) [],
       FieldDecl ''error_message'' (TOptional TStr) (Default VNone) [MaxLength 1000],
       FieldDecl ''timestamp'' TDatetime DefaultFactory_utcnow []],
     relationships =
      [(''test_session'', ''TestSession'', ''conversation_logs'')]\<rparr>"

subsection \<open>Non-persistent schemas (validation, forms, API requests and responses)\<close>

definition UserCreate :: model where
  "UserCreate = \<lparr>mname = ''UserCreate'', table = False, tablename = None,
     model_fields =
      [FieldDecl ''email'' TStr Required [MaxLength 255, Regex email_regex],
       FieldDecl ''username'' TStr Required [MaxLength 50],
       FieldDecl ''full_name'' TStr Required [MaxLength 100],
       FieldDecl ''password'' TStr Required [MinLength 8, MaxLength 100]],
     relationships = []\<rparr>"

definition UserUpdate :: model where
  "UserUpdate = \<lparr>mname = ''UserUpdate'', table = False, tablename = None,
     model_fields =
      [FieldDecl ''full_name'' (TOptional TStr) (Default VNone) [MaxLength 100],
       FieldDecl ''username'' (TOptional TStr) (Default VNone) [MaxLength 50]],
     relationships = []\<rparr>"

definition AgentCreate :: model where
  "AgentCreate = \<lparr>mname = ''AgentCreate'', table = False, tablename = None,
     model_fields =
      [FieldDecl ''name'' TStr Required [MaxLength 100],
       FieldDecl ''description'' TStr (Default (VStr [])) [MaxLength 500],
       FieldDecl ''system_message'' TStr (Default (VStr [])) [MaxLength 2000],
       FieldDecl ''voice_pitch'' TDecimal (Default (VDec 1)) [Ge (1 / 10), Le 2],
       FieldDecl ''voice_speed'' TDecimal (Default (VDec 1)) [Ge (1 / 10), Le 3],
       FieldDecl ''voice_volume'' TDecimal (Default (VDec 1)) [Ge (1 / 10), Le 2],
       FieldDecl ''response_timeout'' TInt (Default (VInt 30)) [Ge 5, Le 300],
       FieldDecl ''max_conversation_length'' TInt (Default (VInt 50)) [Ge 1, Le 1000]],
     relationships = []\<rparr>"

definition AgentUpdate :: model where
  "AgentUpdate = \<lparr>mname = ''AgentUpdate'', table = False, tablename = None,
     model_fields =
      [FieldDecl ''name'' (TOptional TStr) (Default VNone) [MaxLength 100],
       FieldDecl ''description'' (TOptional TStr) (Default VNone) [MaxLength 500],
       FieldDecl ''system_message'' (TOptional TStr) (Default VNone) [MaxLength 2000],
       FieldDecl ''voice_pitch'' (TOptional TDecimal) (Default VNone) [Ge (1 / 10), Le 2],
       FieldDecl ''voice_speed'' (TOptional TDecimal) (Default VNone) [Ge (1 / 10), Le 3],
       FieldDecl ''voice_volume'' (TOptional TDecimal) (Default VNone) [Ge (1 / 10), Le 2],
       FieldDecl ''response_timeout'' (TOptional TInt) (Default VNone) [Ge 5, Le 300],
       FieldDecl ''max_conversation_length'' (TOptional TInt) (Default VNone) [Ge 1, Le 1000],
       FieldDecl ''status'' (TOptional (TEnum AgentStatus)) (Default VNone) []],
     relationships = []\<rparr>"

definition ServiceConfigCreate :: model where
  "ServiceConfigCreate = \<lparr>mname = ''ServiceConfigCreate'', table = False, tablename = None,
     model_fields =
      [FieldDecl ''service_id'' TInt Required [],
       FieldDecl ''config'' TDict (Default (VDict [])) [],
       FieldDecl ''is_primary'' TBool (Default (VBool False)) []],
     relationships = []\<rparr>"

definition ServiceConfigUpdate :: model where
  "ServiceConfigUpdate = \<lparr>mname = ''ServiceConfigUpdate'', table = False, tablename = None,
     model_fields =
      [FieldDecl ''config'' (TOptional TDict) (Default VNone) [],
       FieldDecl ''is_primary'' (TOptional TBool) (Default VNone) []],
     relationships = []\<rparr>"

definition APIKeyCreate :: model where
  "APIKeyCreate = \<lparr>mname = ''APIKeyCreate'', table = False, tablename = None,
     model_fields =
      [FieldDecl ''name'' TStr Required [MaxLength 100],
       FieldDecl ''expires_at'' (TOptional TDatetime) (Default VNone) [],
       FieldDecl ''rate_limit_per_hour'' (TOptional TInt) (Default VNone) [Ge 1],
       FieldDecl ''rate_limit_per_day'' (TOptional TInt) (Default VNone) [Ge 1]],
     relationships = []\<rparr>"

definition APIKeyUpdate :: model where
  "APIKeyUpdate = \<lparr>mname = ''APIKeyUpdate'', table = False, tablename = None,
     model_fields =
      [FieldDecl ''name'' (TOptional TStr) (Default VNone) [MaxLength 100],
       FieldDecl ''is_active'' (TOptional TBool) (Default VNone) [],
       FieldDecl ''expires_at'' (TOptional TDatetime) (Default VNone) [],
       FieldDecl ''rate_limit_per_hour'' (TOptional TInt) (Default VNone) [Ge 1],
       FieldDecl ''rate_limit_per_day'' (TOptional TInt) (Default VNone) [Ge 1]],
     relationships = []\<rparr>"

definition TestSessionCreate :: model where
  "TestSessionCreate = \<lparr>mname = ''TestSessionCreate'', table = False, tablename = None,
     model_fields =
      [FieldDecl ''agent_id'' TInt Required []],
     relationships = []\<rparr>"

definition ConversationEntry :: model where
  "ConversationEntry = \<lparr>mname = ''ConversationEntry'', table = False, tablename = None,
     model_fields =
      [FieldDecl ''user_input'' TStr Required [MaxLength 2000],
       FieldDecl ''agent_response'' TStr Required [MaxLength 5000],
       FieldDecl ''processing_time'' TDecimal Required [Ge 0],
       FieldDecl ''tts_processing_time'' (TOptional TDecimal) (Default VNone) [Ge 0],
       FieldDecl ''stt_processing_time'' (TOptional TDecimal) (Default VNone) [Ge 0],
       FieldDecl ''llm_processing_time'' (TOptional TDecimal) (Default VNone) [Ge 0],
       FieldDecl ''audio_input_duration'' (TOptional TDecimal) (Default VNone) [Ge 0],
       FieldDecl ''audio_output_duration'' (TOptional TDecimal) (Default VNone) [Ge 0],
       FieldDecl ''has_error'' TBool (Default (VBool False)) [],
       FieldDecl ''error_message'' (TOptional TStr) (Default VNone) [MaxLength 1000]],
     relationships = []\<rparr>"

definition AIServiceCreate :: model where
  "AIServiceCreate = \<lparr>mname = ''AIServiceCreate'', table = False, tablename = None,
     model_fields =
      [FieldDecl ''name'' TStr Required [MaxLength 100],
       FieldDecl ''service_type'' (TEnum ServiceType) Required [],
       FieldDecl ''provider'' TStr Required [MaxLength 100],
       FieldDecl ''description'' TStr (Default (VStr [])) [MaxLength 500],
       FieldDecl ''default_config'' TDict (Default (VDict [])) []],
     relationships = []\<rparr>"

definition AIServiceUpdate :: model where
  "AIServiceUpdate = \<lparr>mname = ''AIServiceUpdate'', table = False, tablename = None,
     model_fields =
      [FieldDecl ''name'' (TOptional TStr) (Default VNone) [MaxLength 100],
       FieldDecl ''description'' (TOptional TStr) (Default VNone) [MaxLength 500],
       FieldDecl ''is_active'' (TOptional TBool) (Default VNone) [],
       FieldDecl ''default_config'' (TOptional TDict) (Default VNone) []],
     relationships = []\<rparr>"

section \<open>Validation\<close>

text \<open>
  What the keywords of a declaration mean for a value offered for the attribute. The
  value is taken in the declared Python type (an \<^verbatim>\<open>int\<close> for an \<^verbatim>\<open>int\<close> attribute, a
  \<^verbatim>\<open>Decimal\<close> for a \<^verbatim>\<open>Decimal\<close> one, a member's string for an enumeration); a
  value of another type is a type error. \<^verbatim>\<open>None\<close> is a value of every
  \<^verbatim>\<open>Optional\<close> type. The conversions pydantic tries before it gives a type error
  (the string \<^verbatim>\<open>'30'\<close> for an \<^verbatim>\<open>int\<close>, the \<^verbatim>\<open>int\<close> 2 for a \<^verbatim>\<open>Decimal\<close>) are not
  modelled: the theorems speak of inputs that have the declared types, and of no others
  but where an enumeration is concerned, which admits no conversion.
\<close>

fun has_type :: "ftype \<Rightarrow> val \<Rightarrow> bool" where
  "has_type (TOptional t) v = (v = VNone \<or> has_type t v)"
| "has_type TInt (VInt i) = True"
| "has_type TStr (VStr s) = True"
| "has_type TBool (VBool b) = True"
| "has_type TDecimal (VDec d) = True"
| "has_type TDatetime (VDatetime t) = True"
| "has_type TDict (VDict kvs) = True"
| "has_type (TEnum e) (VStr s) = (s \<in> set (enum_values e))"
| "has_type t v = False"

text \<open>
  The value constraints: \<^verbatim>\<open>ge\<close> and \<^verbatim>\<open>le\<close> bound a number, \<^verbatim>\<open>min_length\<close> and
  \<^verbatim>\<open>max_length\<close> bound the length of a string. \<^verbatim>\<open>None\<close> satisfies every
  constraint of an optional attribute. The bounds \<^verbatim>\<open>0.1\<close>, \<^verbatim>\<open>2.0\<close> and \<^verbatim>\<open>3.0\<close> are
  read as the decimal numbers written. \<^verbatim>\<open>primary_key\<close>, \<^verbatim>\<open>unique\<close>,
  \<^verbatim>\<open>foreign_key\<close> and \<^verbatim>\<open>sa_column\<close> constrain the table, not the value.

  The keyword \<^verbatim>\<open>regex\<close> constrains nothing. The module passes it to \<^verbatim>\<open>Field\<close>, and
  pydantic 2, which checks a string against the keyword \<^verbatim>\<open>pattern\<close>, does not know
  \<^verbatim>\<open>regex\<close> and drops it: every string satisfies a declared \<^verbatim>\<open>regex\<close>, whether
  \<open>re_match\<close> holds of it or not.
\<close>

fun satisfies :: "constraint \<Rightarrow> val \<Rightarrow> bool" where
  "satisfies (Ge b) (VInt i) = (b \<le> of_int i)"
| "satisfies (Ge b) (VDec d) = (b \<le> d)"
| "satisfies (Le b) (VInt i) = (of_int i \<le> b)"
| "satisfies (Le b) (VDec d) = (d \<le> b)"
| "satisfies (MaxLength n) (VStr s) = (length s \<le> n)"
| "satisfies (MinLength n) (VStr s) = (n \<le> length s)"
| "satisfies c v = True"

text \<open>
  The errors of the layer. A validation error names the attribute and what is wrong
  with its value; a uniqueness conflict names the attribute whose value is taken; a
  lookup that finds no record is not found.
\<close>

datatype reason = Missing | WrongType | Violates constraint

datatype error = ValidationError string reason | UniquenessConflict string | NotFound

text \<open>
  One attribute: an absent value is replaced by the default (\<open>now\<close> is what
  \<^verbatim>\<open>datetime.utcnow\<close> returns), and an absent value with no default is an error; a
  value that is given is checked against the type and then against every constraint.
\<close>

definition validate_field :: "int \<Rightarrow> field_decl \<Rightarrow> val option \<Rightarrow> error list + val" where
  "validate_field now f given =
     (case given of
        None \<Rightarrow>
          (case fdefault f of
             Required \<Rightarrow> Inl [ValidationError (fname f) Missing]
           | Default v \<Rightarrow> Inr v
           | DefaultFactory_utcnow \<Rightarrow> Inr (VDatetime now))
      | Some v \<Rightarrow>
          if \<not> has_type (ftyp f) v then Inl [ValidationError (fname f) WrongType]
          else
            (case filter (\<lambda>c. \<not> satisfies c v) (cons f) of
               [] \<Rightarrow> Inr v
             | cs \<Rightarrow> Inl (map (\<lambda>c. ValidationError (fname f) (Violates c)) cs)))"

text \<open>
  A whole input (the keyword arguments, by name): every declared attribute is
  validated, keys that name no attribute are ignored, and the errors of all attributes
  are reported together. The result holds the declared attributes in source order.
  This is the validation of an input against a class, which \<^verbatim>\<open>model_validate\<close> runs
  for a persisted class as for a request class.
\<close>

fun validate_fields ::
  "int \<Rightarrow> field_decl list \<Rightarrow> (string \<times> val) list \<Rightarrow> error list + (string \<times> val) list" where
  "validate_fields now [] inp = Inr []"
| "validate_fields now (f # fs) inp =
     (case (validate_field now f (map_of inp (fname f)), validate_fields now fs inp) of
        (Inl es, Inl es') \<Rightarrow> Inl (es @ es')
      | (Inl es, Inr r) \<Rightarrow> Inl es
      | (Inr v, Inl es') \<Rightarrow> Inl es'
      | (Inr v, Inr r) \<Rightarrow> Inr ((fname f, v) # r))"

definition validate :: "int \<Rightarrow> model \<Rightarrow> (string \<times> val) list \<Rightarrow> error list + (string \<times> val) list" where
  "validate now m inp = validate_fields now (model_fields m) inp"

text \<open>
  Constructing an instance with keyword arguments, \<^verbatim>\<open>Agent(...)\<close> or
  \<^verbatim>\<open>AgentCreate(...)\<close>. A request class (\<^verbatim>\<open>table=False\<close>) validates its input. A
  persisted class (\<^verbatim>\<open>table=True\<close>) validates nothing: its constructor takes every
  given value as it is, whatever its type and whatever the constraints, fills an absent
  attribute with its default, leaves an absent attribute that has no default unset,
  and never fails.
\<close>

definition construct_field :: "int \<Rightarrow> field_decl \<Rightarrow> val option \<Rightarrow> val option" where
  "construct_field now f given =
     (case given of
        Some v \<Rightarrow> Some v
      | None \<Rightarrow>
          (case fdefault f of
             Required \<Rightarrow> None
           | Default v \<Rightarrow> Some v
           | DefaultFactory_utcnow \<Rightarrow> Some (VDatetime now)))"

fun construct_fields ::
  "int \<Rightarrow> field_decl list \<Rightarrow> (string \<times> val) list \<Rightarrow> (string \<times> val) list" where
  "construct_fields now [] inp = []"
| "construct_fields now (f # fs) inp =
     (case construct_field now f (map_of inp (fname f)) of
        None \<Rightarrow> construct_fields now fs inp
      | Some v \<Rightarrow> (fname f, v) # construct_fields now fs inp)"

definition construct :: "int \<Rightarrow> model \<Rightarrow> (string \<times> val) list \<Rightarrow> error list + (string \<times> val) list" where
  "construct now m inp =
     (if table m then Inr (construct_fields now (model_fields m) inp)
      else validate now m inp)"

text \<open>The declaration of an attribute, by name (the first one, were a name declared twice).\<close>

definition field_of :: "model \<Rightarrow> string \<Rightarrow> field_decl option" where
  "field_of m k = find (\<lambda>f. fname f = k) (model_fields m)"

section \<open>The ranges and counterparts the specification states\<close>

text \<open>
  The numeric ranges stated for an agent's configuration, as (attribute, lower bound,
  upper bound), both bounds included.
\<close>

definition agent_decimal_ranges :: "(string \<times> rat \<times> rat) list" where
  "agent_decimal_ranges =
     [(''voice_pitch'', 1 / 10, 2), (''voice_speed'', 1 / 10, 3), (''voice_volume'', 1 / 10, 2)]"

definition agent_int_ranges :: "(string \<times> int \<times> int) list" where
  "agent_int_ranges = [(''response_timeout'', 5, 300), (''max_conversation_length'', 1, 1000)]"

text \<open>The optional per-stage timings of a conversation exchange.\<close>

definition stage_timings :: "string list" where
  "stage_timings = [''tts_processing_time'', ''stt_processing_time'', ''llm_processing_time'']"

text \<open>
  The attributes that hold an enumeration: the class, the attribute, the enumeration,
  and whether the attribute is optional.
\<close>

definition enum_fields :: "(model \<times> string \<times> enum_cls \<times> bool) list" where
  "enum_fields =
     [(AIService, ''service_type'', ServiceType, False),
      (AIServiceCreate, ''service_type'', ServiceType, False),
      (Agent, ''status'', AgentStatus, False),
      (AgentUpdate, ''status'', AgentStatus, True),
      (TestSession, ''status'', TestSessionStatus, False)]"

text \<open>
  A request class against its persisted counterpart: every attribute of the request
  class is an attribute of the persisted class, with the same type or its optional
  variant, and the persisted class has an attribute the request class has not.
\<close>

definition optional_variant :: "ftype \<Rightarrow> ftype \<Rightarrow> bool" where
  "optional_variant p e = (p = e \<or> p = TOptional e)"

definition mirrors_field :: "model \<Rightarrow> field_decl \<Rightarrow> bool" where
  "mirrors_field e f =
     list_ex (\<lambda>g. fname g = fname f \<and> optional_variant (ftyp f) (ftyp g)) (model_fields e)"

definition payload_of :: "model \<Rightarrow> model \<Rightarrow> bool" where
  "payload_of p e =
     (list_all (mirrors_field e) (model_fields p)
      \<and> list_ex (\<lambda>g. fname g \<notin> set (field_names p)) (model_fields e))"

definition payload_counterparts :: "(model \<times> model) list" where
  "payload_counterparts =
     [(UserCreate, User), (UserUpdate, User),
      (AgentCreate, Agent), (AgentUpdate, Agent),
      (ServiceConfigCreate, AgentServiceConfig), (ServiceConfigUpdate, AgentServiceConfig),
      (APIKeyCreate, APIKey), (APIKeyUpdate, APIKey),
      (TestSessionCreate, TestSession),
      (ConversationEntry, ConversationLog),
      (AIServiceCreate, AIService), (AIServiceUpdate, AIService)]"

text \<open>The update classes of the module.\<close>

definition update_models :: "model list" where
  "update_models = [UserUpdate, AgentUpdate, ServiceConfigUpdate, APIKeyUpdate, AIServiceUpdate]"

section \<open>Applying updates and storing records\<close>

text \<open>
  Modelled from the spec: the application of a validated update payload to a persisted
  record, which app/models.py does not contain. The specification gives update classes
  the meaning "unset = leave unchanged": an attribute of the payload that is
  \<^verbatim>\<open>None\<close> leaves the attribute of the record as it is, any other value replaces
  it, and an attribute the payload does not declare is not touched.
\<close>

definition apply_update :: "(string \<times> val) list \<Rightarrow> (string \<times> val) list \<Rightarrow> (string \<times> val) list" where
  "apply_update row upd =
     map (\<lambda>(k, v). (k, case map_of upd k of
                          None \<Rightarrow> v
                        | Some u \<Rightarrow> if u = VNone then v else u)) row"

text \<open>The attributes a class declares \<^verbatim>\<open>unique=True\<close>, in source order.\<close>

definition unique_fields :: "model \<Rightarrow> string list" where
  "unique_fields m = map fname (filter (\<lambda>f. Unique \<in> set (cons f)) (model_fields m))"

text \<open>
  Modelled from the spec: the storage layer, which app/models.py does not contain. A
  table is the list of its records. The attributes declared unique must be unique
  across the records of the table at persistence time: \<open>taken\<close> lists the unique
  attributes whose value in the new record is the value in a stored record already.
\<close>

definition taken :: "model \<Rightarrow> (string \<times> val) list list \<Rightarrow> (string \<times> val) list \<Rightarrow> string list" where
  "taken m rows new =
     filter (\<lambda>k. list_ex (\<lambda>r. map_of r k = map_of new k) rows) (unique_fields m)"

text \<open>
  Modelled from the spec: creating a record. The input is validated against the
  persisted class; a create that would duplicate a unique attribute fails with a
  uniqueness conflict for that attribute and returns no table, so the stored records
  stay as they were. The assignment of identifiers and the check of foreign keys are
  left out.
\<close>

definition create ::
  "int \<Rightarrow> model \<Rightarrow> (string \<times> val) list list \<Rightarrow> (string \<times> val) list
     \<Rightarrow> error list + (string \<times> val) list list" where
  "create now m rows inp =
     (case validate now m inp of
        Inl es \<Rightarrow> Inl es
      | Inr new \<Rightarrow>
          (case taken m rows new of
             [] \<Rightarrow> Inr (rows @ [new])
           | ks \<Rightarrow> Inl (map UniquenessConflict ks)))"

text \<open>
  Modelled from the spec: updating the record at a position. The input is validated
  against the update class and applied to the record; a position that holds no record
  is not found, and an update that would duplicate a unique attribute of another
  record fails with a uniqueness conflict.
\<close>

definition update ::
  "int \<Rightarrow> model \<Rightarrow> model \<Rightarrow> (string \<times> val) list list \<Rightarrow> nat \<Rightarrow> (string \<times> val) list
     \<Rightarrow> error list + (string \<times> val) list list" where
  "update now m um rows i inp =
     (if length rows \<le> i then Inl [NotFound]
      else
        (case validate now um inp of
           Inl es \<Rightarrow> Inl es
         | Inr u \<Rightarrow>
             (let new = apply_update (rows ! i) u in
              case taken m (take i rows @ drop (Suc i) rows) new of
                [] \<Rightarrow> Inr (rows[i := new])
              | ks \<Rightarrow> Inl (map UniquenessConflict ks))))"

text \<open>Modelled from the spec: the operations on a table, and one step of the storage layer.\<close>

datatype operation = Create "(string \<times> val) list" | Update nat "(string \<times> val) list"

fun step ::
  "int \<Rightarrow> model \<Rightarrow> model \<Rightarrow> (string \<times> val) list list \<Rightarrow> operation
     \<Rightarrow> error list + (string \<times> val) list list" where
  "step now m um rows (Create inp) = create now m rows inp"
| "step now m um rows (Update i inp) = update now m um rows i inp"

text \<open>
  Modelled from the spec: the tables that can be reached, which are the empty table and
  what a successful operation makes of a reachable table. \<open>m\<close> is the persisted class
  and \<open>um\<close> its update class.
\<close>

inductive reachable :: "model \<Rightarrow> model \<Rightarrow> (string \<times> val) list list \<Rightarrow> bool" where
  empty: "reachable m um []"
| step: "reachable m um rows \<Longrightarrow> step now m um rows op = Inr rows' \<Longrightarrow> reachable m um rows'"

text \<open>
  Modelled from the spec: a sequence of operations, each with the time it runs at. An
  operation that fails leaves the table as it was, and the next one runs on.
\<close>

fun run ::
  "model \<Rightarrow> model \<Rightarrow> (string \<times> val) list list \<Rightarrow> (int \<times> operation) list
     \<Rightarrow> (string \<times> val) list list" where
  "run m um rows [] = rows"
| "run m um rows ((now, op) # ops) =
     (case step now m um rows op of
        Inl es \<Rightarrow> run m um rows ops
      | Inr rows' \<Rightarrow> run m um rows' ops)"

section \<open>Validation, attribute by attribute\<close>

lemma validate_field_Inr:
  "validate_field now f g = Inr v \<Longrightarrow>
     (g = Some v \<and> has_type (ftyp f) v \<and> list_all (\<lambda>c. satisfies c v) (cons f))
   \<or> (g = None \<and> fdefault f = Default v)
   \<or> (g = None \<and> fdefault f = DefaultFactory_utcnow \<and> v = VDatetime now)"
  by (auto simp: validate_field_def list_all_iff filter_empty_conv
           split: option.splits default.splits if_splits list.splits)

lemma validate_field_violation:
  assumes "has_type (ftyp f) v" "c \<in> set (cons f)" "\<not> satisfies c v"
  shows "\<exists>es. validate_field now f (Some v) = Inl es
            \<and> ValidationError (fname f) (Violates c) \<in> set es"
proof -
  let ?bad = "filter (\<lambda>c. \<not> satisfies c v) (cons f)"
  from assms have mem: "c \<in> set ?bad" by simp
  then have "?bad \<noteq> []" by (auto simp: filter_empty_conv)
  then have "validate_field now f (Some v)
               = Inl (map (\<lambda>c. ValidationError (fname f) (Violates c)) ?bad)"
    using assms(1) by (simp add: validate_field_def split: list.splits)
  moreover have "ValidationError (fname f) (Violates c)
                   \<in> set (map (\<lambda>c. ValidationError (fname f) (Violates c)) ?bad)"
    using mem by (simp only: set_map image_eqI)
  ultimately show ?thesis by blast
qed

lemma validate_field_wrong_type:
  "\<not> has_type (ftyp f) v \<Longrightarrow>
     validate_field now f (Some v) = Inl [ValidationError (fname f) WrongType]"
  by (simp add: validate_field_def)

lemma validate_field_ok:
  "has_type (ftyp f) v \<Longrightarrow> list_all (\<lambda>c. satisfies c v) (cons f) \<Longrightarrow>
     validate_field now f (Some v) = Inr v"
  by (simp add: validate_field_def list_all_iff filter_empty_conv[THEN iffD2] split: list.splits)

lemma validate_fields_names:
  "validate_fields now fs inp = Inr r \<Longrightarrow> map fst r = map fname fs"
  by (induction fs arbitrary: r) (auto split: sum.splits)

lemma validate_fields_find:
  "validate_fields now fs inp = Inr r \<Longrightarrow> find (\<lambda>f. fname f = k) fs = Some f \<Longrightarrow>
     \<exists>v. map_of r k = Some v \<and> validate_field now f (map_of inp k) = Inr v"
  by (induction fs arbitrary: r) (auto split: sum.splits if_splits)

lemma validate_fields_reject:
  "f \<in> set fs \<Longrightarrow> validate_field now f (map_of inp (fname f)) = Inl es \<Longrightarrow>
     \<exists>es'. validate_fields now fs inp = Inl es' \<and> set es \<subseteq> set es'"
  by (induction fs) (auto split: sum.splits)

lemma field_of_member:
  "field_of m k = Some f \<Longrightarrow> f \<in> set (model_fields m) \<and> fname f = k"
  by (auto simp: field_of_def find_Some_iff)

lemma validate_names:
  "validate now m inp = Inr r \<Longrightarrow> map fst r = field_names m"
  by (simp add: validate_def field_names_def validate_fields_names)

lemma validate_accept:
  "validate now m inp = Inr r \<Longrightarrow> field_of m k = Some f \<Longrightarrow>
     \<exists>v. map_of r k = Some v \<and> validate_field now f (map_of inp k) = Inr v"
  unfolding validate_def field_of_def by (rule validate_fields_find)

lemma validate_undeclared:
  assumes "validate now m inp = Inr r" "k \<notin> set (field_names m)"
  shows "map_of r k = None"
proof -
  from validate_names[OF assms(1)] assms(2) have "k \<notin> fst ` set r"
    by (metis set_map)
  then show ?thesis by (simp add: map_of_eq_None_iff)
qed

lemma validate_reject:
  assumes "field_of m k = Some f" "validate_field now f (map_of inp k) = Inl es"
  shows "\<exists>es'. validate now m inp = Inl es' \<and> set es \<subseteq> set es'"
proof -
  from field_of_member[OF assms(1)] have f: "f \<in> set (model_fields m)" "fname f = k"
    by simp_all
  from validate_fields_reject[OF f(1), of now inp es] assms(2) f(2)
  show ?thesis by (simp add: validate_def)
qed

lemma validate_violation:
  assumes "field_of m k = Some f" "map_of inp k = Some v"
    "has_type (ftyp f) v" "c \<in> set (cons f)" "\<not> satisfies c v"
  shows "\<exists>es. validate now m inp = Inl es \<and> ValidationError k (Violates c) \<in> set es"
proof -
  from field_of_member[OF assms(1)] have k: "fname f = k" by simp
  from validate_field_violation[OF assms(3,4,5), of now] obtain es where
    es: "validate_field now f (Some v) = Inl es"
        "ValidationError k (Violates c) \<in> set es"
    using k by auto
  from validate_reject[OF assms(1), of now inp es] es(1) assms(2)
  obtain es' where "validate now m inp = Inl es'" "set es \<subseteq> set es'" by auto
  with es(2) show ?thesis by auto
qed

lemma validate_wrong_type:
  assumes "field_of m k = Some f" "map_of inp k = Some v" "\<not> has_type (ftyp f) v"
  shows "\<exists>es. validate now m inp = Inl es \<and> ValidationError k WrongType \<in> set es"
proof -
  from field_of_member[OF assms(1)] have k: "fname f = k" by simp
  from validate_reject[OF assms(1), of now inp "[ValidationError k WrongType]"]
    validate_field_wrong_type[OF assms(3), of now] assms(2) k
  show ?thesis by auto
qed

lemma has_type_TDecimal: "has_type TDecimal v = (\<exists>d. v = VDec d)"
  by (cases v) simp_all

lemma has_type_TInt: "has_type TInt v = (\<exists>i. v = VInt i)"
  by (cases v) simp_all


lemma has_type_TEnum: "has_type (TEnum e) v = (\<exists>s. v = VStr s \<and> s \<in> set (enum_values e))"
  by (cases v) simp_all

lemma has_type_TOptional: "has_type (TOptional t) v = (v = VNone \<or> has_type t v)"
  by simp

lemma construct_request: "\<not> table m \<Longrightarrow> construct now m inp = validate now m inp"
  by (simp add: construct_def)

lemma construct_persisted:
  "table m \<Longrightarrow> construct now m inp = Inr (construct_fields now (model_fields m) inp)"
  by (simp add: construct_def)

lemma agent_decimal_decl:
  assumes "m = Agent \<or> m = AgentCreate" "(k, lo, hi) \<in> set agent_decimal_ranges"
  shows "field_of m k = Some (FieldDecl k TDecimal (Default (VDec 1)) [Ge lo, Le hi])"
proof -
  have "field_of Agent ''voice_pitch''
          = Some (FieldDecl ''voice_pitch'' TDecimal (Default (VDec 1)) [Ge (1 / 10), Le 2])"
       "field_of Agent ''voice_speed''
          = Some (FieldDecl ''voice_speed'' TDecimal (Default (VDec 1)) [Ge (1 / 10), Le 3])"
       "field_of Agent ''voice_volume''
          = Some (FieldDecl ''voice_volume'' TDecimal (Default (VDec 1)) [Ge (1 / 10), Le 2])"
    by (simp_all add: field_of_def Agent_def)
  moreover
  have "field_of AgentCreate ''voice_pitch''
          = Some (FieldDecl ''voice_pitch'' TDecimal (Default (VDec 1)) [Ge (1 / 10), Le 2])"
       "field_of AgentCreate ''voice_speed''
          = Some (FieldDecl ''voice_speed'' TDecimal (Default (VDec 1)) [Ge (1 / 10), Le 3])"
       "field_of AgentCreate ''voice_volume''
          = Some (FieldDecl ''voice_volume'' TDecimal (Default (VDec 1)) [Ge (1 / 10), Le 2])"
    by (simp_all add: field_of_def AgentCreate_def)
  ultimately show ?thesis
    using assms unfolding agent_decimal_ranges_def by auto
qed

lemma agent_int_decl:
  assumes "m = Agent \<or> m = AgentCreate" "(k, lo, hi) \<in> set agent_int_ranges"
  shows "\<exists>d. lo \<le> d \<and> d \<le> hi \<and> field_of m k
           = Some (FieldDecl k TInt (Default (VInt d)) [Ge (of_int lo), Le (of_int hi)])"
proof -
  have "field_of Agent ''response_timeout''
          = Some (FieldDecl ''response_timeout'' TInt (Default (VInt 30)) [Ge 5, Le 300])"
       "field_of Agent ''max_conversation_length''
          = Some (FieldDecl ''max_conversation_length'' TInt (Default (VInt 50)) [Ge 1, Le 1000])"
    by (simp_all add: field_of_def Agent_def)
  moreover
  have "field_of AgentCreate ''response_timeout''
          = Some (FieldDecl ''response_timeout'' TInt (Default (VInt 30)) [Ge 5, Le 300])"
       "field_of AgentCreate ''max_conversation_length''
          = Some (FieldDecl ''max_conversation_length'' TInt (Default (VInt 50)) [Ge 1, Le 1000])"
    by (simp_all add: field_of_def AgentCreate_def)
  ultimately show ?thesis
    using assms unfolding agent_int_ranges_def by auto
qed

lemma agent_dec_accept:
  assumes m: "m = Agent \<or> m = AgentCreate" and k: "(k, lo, hi) \<in> set agent_decimal_ranges"
    and ok: "validate now m inp = Inr r"
  shows "\<exists>d. map_of r k = Some (VDec d) \<and> lo \<le> d \<and> d \<le> hi"
proof -
  let ?f = "FieldDecl k TDecimal (Default (VDec 1)) [Ge lo, Le hi]"
  from validate_accept[OF ok agent_decimal_decl[OF m k]]
  obtain v where v: "map_of r k = Some v" "validate_field now ?f (map_of inp k) = Inr v"
    by auto
  have "lo \<le> 1 \<and> 1 \<le> hi" using k by (auto simp: agent_decimal_ranges_def)
  with validate_field_Inr[OF v(2)] have "\<exists>d. v = VDec d \<and> lo \<le> d \<and> d \<le> hi"
    by (auto simp: has_type_TDecimal)
  with v(1) show ?thesis by auto
qed

lemma agent_int_accept:
  assumes m: "m = Agent \<or> m = AgentCreate" and k: "(k, lo, hi) \<in> set agent_int_ranges"
    and ok: "validate now m inp = Inr r"
  shows "\<exists>i. map_of r k = Some (VInt i) \<and> lo \<le> i \<and> i \<le> hi"
proof -
  from agent_int_decl[OF m k] obtain d where d: "lo \<le> d" "d \<le> hi"
    "field_of m k = Some (FieldDecl k TInt (Default (VInt d)) [Ge (of_int lo), Le (of_int hi)])"
    by blast
  let ?f = "FieldDecl k TInt (Default (VInt d)) [Ge (of_int lo), Le (of_int hi)]"
  from validate_accept[OF ok d(3)]
  obtain v where v: "map_of r k = Some v" "validate_field now ?f (map_of inp k) = Inr v"
    by auto
  from validate_field_Inr[OF v(2)] d(1,2) have "\<exists>i. v = VInt i \<and> lo \<le> i \<and> i \<le> hi"
    by (auto simp: has_type_TInt)
  with v(1) show ?thesis by auto
qed

lemma agent_dec_reject:
  assumes m: "m = Agent \<or> m = AgentCreate" and k: "(k, lo, hi) \<in> set agent_decimal_ranges"
    and g: "map_of inp k = Some (VDec d)"
  shows "(d < lo \<longrightarrow> (\<exists>es. validate now m inp = Inl es
                          \<and> ValidationError k (Violates (Ge lo)) \<in> set es))
       \<and> (hi < d \<longrightarrow> (\<exists>es. validate now m inp = Inl es
                          \<and> ValidationError k (Violates (Le hi)) \<in> set es))"
  using validate_violation[OF agent_decimal_decl[OF m k] g, of "Ge lo" now]
        validate_violation[OF agent_decimal_decl[OF m k] g, of "Le hi" now]
  by auto

lemma agent_int_reject:
  assumes m: "m = Agent \<or> m = AgentCreate" and k: "(k, lo, hi) \<in> set agent_int_ranges"
    and g: "map_of inp k = Some (VInt i)"
  shows "(i < lo \<longrightarrow> (\<exists>es. validate now m inp = Inl es
                          \<and> ValidationError k (Violates (Ge (of_int lo))) \<in> set es))
       \<and> (hi < i \<longrightarrow> (\<exists>es. validate now m inp = Inl es
                          \<and> ValidationError k (Violates (Le (of_int hi))) \<in> set es))"
proof -
  from agent_int_decl[OF m k] obtain d where
    d: "field_of m k = Some (FieldDecl k TInt (Default (VInt d)) [Ge (of_int lo), Le (of_int hi)])"
    by blast
  show ?thesis
    using validate_violation[OF d g, of "Ge (of_int lo)" now]
          validate_violation[OF d g, of "Le (of_int hi)" now]
    by auto
qed

lemma validate_field_bounds_iff:
  assumes "has_type t v"
  shows "(validate_field now (FieldDecl k t dflt [Ge lo, Le hi]) (Some v) = Inr v)
       = (satisfies (Ge lo) v \<and> satisfies (Le hi) v)"
  using assms by (simp add: validate_field_def split: list.splits)

lemma agent_dec_field_iff:
  assumes m: "m = Agent \<or> m = AgentCreate" and k: "(k, lo, hi) \<in> set agent_decimal_ranges"
    and f: "field_of m k = Some f"
  shows "(validate_field now f (Some (VDec d)) = Inr (VDec d)) = (lo \<le> d \<and> d \<le> hi)"
  using agent_decimal_decl[OF m k] f
    validate_field_bounds_iff[of TDecimal "VDec d" now k _ lo hi]
  by simp

lemma agent_int_field_iff:
  assumes m: "m = Agent \<or> m = AgentCreate" and k: "(k, lo, hi) \<in> set agent_int_ranges"
    and f: "field_of m k = Some f"
  shows "(validate_field now f (Some (VInt i)) = Inr (VInt i)) = (lo \<le> i \<and> i \<le> hi)"
  using agent_int_decl[OF m k] f
    validate_field_bounds_iff[of TInt "VInt i" now k _ "of_int lo" "of_int hi"]
  by auto

section \<open>Numeric ranges of an agent's configuration\<close>

text \<open>
  Claim C1, as the specification states it, fails for \<open>Agent\<close>: the class is persisted,
  its constructor validates nothing, and an agent with a \<^verbatim>\<open>voice_pitch\<close> of 2.5 is
  built.
\<close>

theorem agent_constructed_out_of_range:
  "construct 0 Agent
      [(''user_id'', VInt 1), (''name'', VStr (ustr ''bot'')), (''voice_pitch'', VDec (5 / 2))]
     = Inr [(''id'', VNone), (''user_id'', VInt 1), (''name'', VStr (ustr ''bot'')),
            (''description'', VStr []), (''system_message'', VStr []),
            (''status'', VStr (ustr ''draft'')), (''voice_pitch'', VDec (5 / 2)),
            (''voice_speed'', VDec 1), (''voice_volume'', VDec 1),
            (''response_timeout'', VInt 30), (''max_conversation_length'', VInt 50),
            (''created_at'', VDatetime 0), (''updated_at'', VDatetime 0)]"
  by (simp add: construct_def Agent_def construct_field_def)

text \<open>
  Claim C1, amended. Constructing an \<open>AgentCreate\<close> validates the input. For
  \<open>AgentCreate\<close>, and for \<open>Agent\<close> when an input is validated against it: every validated
  record has \<^verbatim>\<open>voice_pitch\<close> in [0.1, 2.0], \<^verbatim>\<open>voice_speed\<close> in [0.1, 3.0],
  \<^verbatim>\<open>voice_volume\<close> in [0.1, 2.0], \<^verbatim>\<open>response_timeout\<close> in [5, 300] and
  \<^verbatim>\<open>max_conversation_length\<close> in [1, 1000]; an input that gives one of these attributes
  a value below or above its range is rejected with a validation error for that
  attribute; and the declaration of each attribute accepts a value exactly when it lies
  in the range, bounds included.
\<close>

theorem agent_numeric_ranges:
  assumes "m = Agent \<or> m = AgentCreate"
  shows "construct now AgentCreate inp = validate now AgentCreate inp
       \<and> (validate now m inp = Inr r \<longrightarrow>
            (\<forall>(k, lo, hi) \<in> set agent_decimal_ranges.
               \<exists>d. map_of r k = Some (VDec d) \<and> lo \<le> d \<and> d \<le> hi) \<and>
            (\<forall>(k, lo, hi) \<in> set agent_int_ranges.
               \<exists>i. map_of r k = Some (VInt i) \<and> lo \<le> i \<and> i \<le> hi))
       \<and> ((k, lo, hi) \<in> set agent_decimal_ranges \<and> map_of inp k = Some (VDec d)
             \<and> (d < lo \<or> hi < d) \<longrightarrow>
               (\<exists>es c. validate now m inp = Inl es \<and> ValidationError k (Violates c) \<in> set es))
       \<and> ((k', lo', hi') \<in> set agent_int_ranges \<and> map_of inp k' = Some (VInt i)
             \<and> (i < lo' \<or> hi' < i) \<longrightarrow>
               (\<exists>es c. validate now m inp = Inl es \<and> ValidationError k' (Violates c) \<in> set es))
       \<and> ((k, lo, hi) \<in> set agent_decimal_ranges \<and> field_of m k = Some f \<longrightarrow>
               (validate_field now f (Some (VDec d)) = Inr (VDec d)) = (lo \<le> d \<and> d \<le> hi))
       \<and> ((k', lo', hi') \<in> set agent_int_ranges \<and> field_of m k' = Some f' \<longrightarrow>
               (validate_field now f' (Some (VInt i)) = Inr (VInt i)) = (lo' \<le> i \<and> i \<le> hi'))"
proof -
  have c0: "construct now AgentCreate inp = validate now AgentCreate inp"
    by (rule construct_request) (simp add: AgentCreate_def)
  have c1: "validate now m inp = Inr r \<longrightarrow>
            (\<forall>(k, lo, hi) \<in> set agent_decimal_ranges.
               \<exists>d. map_of r k = Some (VDec d) \<and> lo \<le> d \<and> d \<le> hi) \<and>
            (\<forall>(k, lo, hi) \<in> set agent_int_ranges.
               \<exists>i. map_of r k = Some (VInt i) \<and> lo \<le> i \<and> i \<le> hi)"
  proof (intro impI conjI ballI)
    fix x assume ok: "validate now m inp = Inr r" and x: "x \<in> set agent_decimal_ranges"
    obtain k lo hi where xe: "x = (k, lo, hi)" by (cases x)
    from agent_dec_accept[OF assms x[unfolded xe] ok]
    show "case x of (k, lo, hi) \<Rightarrow> \<exists>d. map_of r k = Some (VDec d) \<and> lo \<le> d \<and> d \<le> hi"
      by (simp add: xe)
  next
    fix x assume ok: "validate now m inp = Inr r" and x: "x \<in> set agent_int_ranges"
    obtain k lo hi where xe: "x = (k, lo, hi)" by (cases x)
    from agent_int_accept[OF assms x[unfolded xe] ok]
    show "case x of (k, lo, hi) \<Rightarrow> \<exists>i. map_of r k = Some (VInt i) \<and> lo \<le> i \<and> i \<le> hi"
      by (simp add: xe)
  qed
  have c2: "(k, lo, hi) \<in> set agent_decimal_ranges \<and> map_of inp k = Some (VDec d)
             \<and> (d < lo \<or> hi < d) \<longrightarrow>
               (\<exists>es c. validate now m inp = Inl es \<and> ValidationError k (Violates c) \<in> set es)"
  proof (intro impI, elim conjE)
    assume k: "(k, lo, hi) \<in> set agent_decimal_ranges" and g: "map_of inp k = Some (VDec d)"
      and out: "d < lo \<or> hi < d"
    from agent_dec_reject[OF assms k g, of now] out
    show "\<exists>es c. validate now m inp = Inl es \<and> ValidationError k (Violates c) \<in> set es"
      by blast
  qed
  have c3: "(k', lo', hi') \<in> set agent_int_ranges \<and> map_of inp k' = Some (VInt i)
             \<and> (i < lo' \<or> hi' < i) \<longrightarrow>
               (\<exists>es c. validate now m inp = Inl es \<and> ValidationError k' (Violates c) \<in> set es)"
  proof (intro impI, elim conjE)
    assume k: "(k', lo', hi') \<in> set agent_int_ranges" and g: "map_of inp k' = Some (VInt i)"
      and out: "i < lo' \<or> hi' < i"
    from agent_int_reject[OF assms k g, of now] out
    show "\<exists>es c. validate now m inp = Inl es \<and> ValidationError k' (Violates c) \<in> set es"
      by blast
  qed
  have c4: "(k, lo, hi) \<in> set agent_decimal_ranges \<and> field_of m k = Some f \<longrightarrow>
               (validate_field now f (Some (VDec d)) = Inr (VDec d)) = (lo \<le> d \<and> d \<le> hi)"
    using agent_dec_field_iff[OF assms, of k lo hi f now d] by blast
  have c5: "(k', lo', hi') \<in> set agent_int_ranges \<and> field_of m k' = Some f' \<longrightarrow>
               (validate_field now f' (Some (VInt i)) = Inr (VInt i)) = (lo' \<le> i \<and> i \<le> hi')"
    using agent_int_field_iff[OF assms, of k' lo' hi' f' now i] by blast
  show ?thesis by (intro conjI c0 c1 c2 c3 c4 c5)
qed

theorem agent_numeric_ranges_witness:
  "(\<exists>es c. construct 0 AgentCreate
              [(''name'', VStr (ustr ''bot'')), (''voice_pitch'', VDec (5 / 2))] = Inl es
          \<and> ValidationError ''voice_pitch'' (Violates c) \<in> set es)
   \<and> construct 0 AgentCreate [(''name'', VStr (ustr ''bot'')), (''voice_pitch'', VDec 2)]
       = Inr [(''name'', VStr (ustr ''bot'')), (''description'', VStr []),
              (''system_message'', VStr []), (''voice_pitch'', VDec 2),
              (''voice_speed'', VDec 1), (''voice_volume'', VDec 1),
              (''response_timeout'', VInt 30), (''max_conversation_length'', VInt 50)]
   \<and> (\<exists>es c. validate 0 Agent
              [(''user_id'', VInt 1), (''name'', VStr (ustr ''bot'')),
               (''voice_pitch'', VDec (5 / 2))] = Inl es
          \<and> ValidationError ''voice_pitch'' (Violates c) \<in> set es)
   \<and> (\<exists>es c. validate 0 Agent
              [(''user_id'', VInt 1), (''name'', VStr (ustr ''bot'')),
               (''response_timeout'', VInt 301)] = Inl es
          \<and> ValidationError ''response_timeout'' (Violates c) \<in> set es)"
proof -
  have m: "AgentCreate = Agent \<or> AgentCreate = AgentCreate" by simp
  have m': "Agent = Agent \<or> Agent = AgentCreate" by simp
  let ?inp = "[(''name'', VStr (ustr ''bot'')), (''voice_pitch'', VDec (5 / 2))]"
  let ?ok = "[(''name'', VStr (ustr ''bot'')), (''voice_pitch'', VDec 2)]"
  let ?ag = "[(''user_id'', VInt 1), (''name'', VStr (ustr ''bot'')),
              (''voice_pitch'', VDec (5 / 2))]"
  let ?ag2 = "[(''user_id'', VInt 1), (''name'', VStr (ustr ''bot'')),
               (''response_timeout'', VInt 301)]"
  have g: "(''voice_pitch'', 1 / 10, 2) \<in> set agent_decimal_ranges
         \<and> map_of ?inp ''voice_pitch'' = Some (VDec (5 / 2))
         \<and> ((5 / 2 :: rat) < 1 / 10 \<or> (2 :: rat) < 5 / 2)"
    by (simp add: agent_decimal_ranges_def)
  note t = agent_numeric_ranges[OF m, where now = 0 and inp = ?inp and k = "''voice_pitch''"
      and lo = "1 / 10" and hi = 2 and d = "5 / 2"]
  from t[THEN conjunct2, THEN conjunct2, THEN conjunct1, THEN mp, OF g]
  have "\<exists>es c. validate 0 AgentCreate ?inp = Inl es
               \<and> ValidationError ''voice_pitch'' (Violates c) \<in> set es" .
  then have bad: "\<exists>es c. construct 0 AgentCreate ?inp = Inl es
               \<and> ValidationError ''voice_pitch'' (Violates c) \<in> set es"
    by (simp only: t[THEN conjunct1])
  have "validate 0 AgentCreate ?ok
       = Inr [(''name'', VStr (ustr ''bot'')), (''description'', VStr []),
              (''system_message'', VStr []), (''voice_pitch'', VDec 2),
              (''voice_speed'', VDec 1), (''voice_volume'', VDec 1),
              (''response_timeout'', VInt 30), (''max_conversation_length'', VInt 50)]"
    by (simp add: validate_def AgentCreate_def validate_field_def ustr_def)
  then have good: "construct 0 AgentCreate ?ok
       = Inr [(''name'', VStr (ustr ''bot'')), (''description'', VStr []),
              (''system_message'', VStr []), (''voice_pitch'', VDec 2),
              (''voice_speed'', VDec 1), (''voice_volume'', VDec 1),
              (''response_timeout'', VInt 30), (''max_conversation_length'', VInt 50)]"
    by (simp only: agent_numeric_ranges[OF m, where now = 0 and inp = ?ok, THEN conjunct1])
  have g': "(''voice_pitch'', 1 / 10, 2) \<in> set agent_decimal_ranges
         \<and> map_of ?ag ''voice_pitch'' = Some (VDec (5 / 2))
         \<and> ((5 / 2 :: rat) < 1 / 10 \<or> (2 :: rat) < 5 / 2)"
    by (simp add: agent_decimal_ranges_def)
  note t' = agent_numeric_ranges[OF m', where now = 0 and inp = ?ag and k = "''voice_pitch''"
      and lo = "1 / 10" and hi = 2 and d = "5 / 2"]
  from t'[THEN conjunct2, THEN conjunct2, THEN conjunct1, THEN mp, OF g']
  have agent: "\<exists>es c. validate 0 Agent ?ag = Inl es
               \<and> ValidationError ''voice_pitch'' (Violates c) \<in> set es" .
  have g'': "(''response_timeout'', 5, 300) \<in> set agent_int_ranges
         \<and> map_of ?ag2 ''response_timeout'' = Some (VInt 301)
         \<and> ((301 :: int) < 5 \<or> (300 :: int) < 301)"
    by (simp add: agent_int_ranges_def)
  note t'' = agent_numeric_ranges[OF m', where now = 0 and inp = ?ag2
      and k' = "''response_timeout''" and lo' = 5 and hi' = 300 and i = 301]
  from t''[THEN conjunct2, THEN conjunct2, THEN conjunct2, THEN conjunct1, THEN mp, OF g'']
  have agent2: "\<exists>es c. validate 0 Agent ?ag2 = Inl es
               \<and> ValidationError ''response_timeout'' (Violates c) \<in> set es" .
  show ?thesis by (intro conjI bad good agent agent2)
qed

section \<open>The declared pattern of an e-mail address\<close>


lemma regex_not_checked: "satisfies (Regex p) v"
  by (cases v) simp_all

section \<open>E-mail addresses and passwords of users\<close>









section \<open>Sequence numbers and timings of conversation exchanges\<close>

lemma processing_time_decl:
  assumes "m = ConversationLog \<or> m = ConversationEntry"
  shows "field_of m ''processing_time''
           = Some (FieldDecl ''processing_time'' TDecimal Required [Ge 0])"
proof -
  have "field_of ConversationLog ''processing_time''
          = Some (FieldDecl ''processing_time'' TDecimal Required [Ge 0])"
    by (simp add: field_of_def ConversationLog_def)
  moreover have "field_of ConversationEntry ''processing_time''
          = Some (FieldDecl ''processing_time'' TDecimal Required [Ge 0])"
    by (simp add: field_of_def ConversationEntry_def)
  ultimately show ?thesis using assms by auto
qed

lemma stage_timing_decl:
  assumes "m = ConversationLog \<or> m = ConversationEntry" "k \<in> set stage_timings"
  shows "field_of m k = Some (FieldDecl k (TOptional TDecimal) (Default VNone) [Ge 0])"
proof -
  have "field_of ConversationLog ''tts_processing_time''
          = Some (FieldDecl ''tts_processing_time'' (TOptional TDecimal) (Default VNone) [Ge 0])"
       "field_of ConversationLog ''stt_processing_time''
          = Some (FieldDecl ''stt_processing_time'' (TOptional TDecimal) (Default VNone) [Ge 0])"
       "field_of ConversationLog ''llm_processing_time''
          = Some (FieldDecl ''llm_processing_time'' (TOptional TDecimal) (Default VNone) [Ge 0])"
    by (simp_all add: field_of_def ConversationLog_def)
  moreover
  have "field_of ConversationEntry ''tts_processing_time''
          = Some (FieldDecl ''tts_processing_time'' (TOptional TDecimal) (Default VNone) [Ge 0])"
       "field_of ConversationEntry ''stt_processing_time''
          = Some (FieldDecl ''stt_processing_time'' (TOptional TDecimal) (Default VNone) [Ge 0])"
       "field_of ConversationEntry ''llm_processing_time''
          = Some (FieldDecl ''llm_processing_time'' (TOptional TDecimal) (Default VNone) [Ge 0])"
    by (simp_all add: field_of_def ConversationEntry_def)
  ultimately show ?thesis using assms unfolding stage_timings_def by auto
qed

lemma sequence_number_decl:
  "field_of ConversationLog ''sequence_number''
     = Some (FieldDecl ''sequence_number'' TInt Required [Ge 1])"
  "field_of ConversationEntry ''sequence_number'' = None"
  by (simp_all add: field_of_def ConversationLog_def ConversationEntry_def)

lemma processing_time_accept:
  assumes m: "m = ConversationLog \<or> m = ConversationEntry" and ok: "validate now m inp = Inr r"
  shows "\<exists>p. map_of r ''processing_time'' = Some (VDec p) \<and> 0 \<le> p"
proof -
  from validate_accept[OF ok processing_time_decl[OF m]] obtain v where
    v: "map_of r ''processing_time'' = Some v"
       "validate_field now (FieldDecl ''processing_time'' TDecimal Required [Ge 0])
          (map_of inp ''processing_time'') = Inr v"
    by blast
  from validate_field_Inr[OF v(2)] have "\<exists>p. v = VDec p \<and> 0 \<le> p"
    by (auto simp: has_type_TDecimal)
  with v(1) show ?thesis by auto
qed

lemma stage_timing_accept:
  assumes m: "m = ConversationLog \<or> m = ConversationEntry" and k: "k \<in> set stage_timings"
    and ok: "validate now m inp = Inr r"
  shows "map_of r k = Some VNone \<or> (\<exists>t. map_of r k = Some (VDec t) \<and> 0 \<le> t)"
proof -
  from validate_accept[OF ok stage_timing_decl[OF m k]] obtain v where
    v: "map_of r k = Some v"
       "validate_field now (FieldDecl k (TOptional TDecimal) (Default VNone) [Ge 0])
          (map_of inp k) = Inr v"
    by blast
  from validate_field_Inr[OF v(2)] have "v = VNone \<or> (\<exists>t. v = VDec t \<and> 0 \<le> t)"
    by (auto simp: has_type_TDecimal)
  with v(1) show ?thesis by auto
qed

lemma sequence_number_accept:
  assumes ok: "validate now ConversationLog inp = Inr r"
  shows "\<exists>n. map_of r ''sequence_number'' = Some (VInt n) \<and> 1 \<le> n"
proof -
  from validate_accept[OF ok sequence_number_decl(1)] obtain v where
    v: "map_of r ''sequence_number'' = Some v"
       "validate_field now (FieldDecl ''sequence_number'' TInt Required [Ge 1])
          (map_of inp ''sequence_number'') = Inr v"
    by blast
  from validate_field_Inr[OF v(2)] have "\<exists>n. v = VInt n \<and> 1 \<le> n"
    by (auto simp: has_type_TInt)
  with v(1) show ?thesis by auto
qed

lemma timing_reject:
  assumes m: "m = ConversationLog \<or> m = ConversationEntry"
    and k: "k \<in> set (''processing_time'' # stage_timings)"
    and g: "map_of inp k = Some (VDec t)" and neg: "t < 0"
  shows "\<exists>es. validate now m inp = Inl es \<and> ValidationError k (Violates (Ge 0)) \<in> set es"
proof (cases "k = ''processing_time''")
  case True
  with validate_violation[OF processing_time_decl[OF m], of inp "VDec t" "Ge 0" now] g neg
  show ?thesis by simp
next
  case False
  with k have "k \<in> set stage_timings" by simp
  from validate_violation[OF stage_timing_decl[OF m this] g, of "Ge 0" now] neg
  show ?thesis by simp
qed

lemma sequence_number_reject:
  assumes g: "map_of inp ''sequence_number'' = Some (VInt n)" and low: "n < 1"
  shows "\<exists>es. validate now ConversationLog inp = Inl es
            \<and> ValidationError ''sequence_number'' (Violates (Ge 1)) \<in> set es"
  using validate_violation[OF sequence_number_decl(1) g, of "Ge 1" now] low by simp

lemma conversation_entry_request:
  "construct now ConversationEntry inp = validate now ConversationEntry inp"
  by (rule construct_request) (simp add: ConversationEntry_def)

lemma conversation_entry_names:
  "field_names ConversationEntry
     = [''user_input'', ''agent_response'', ''processing_time'', ''tts_processing_time'',
        ''stt_processing_time'', ''llm_processing_time'', ''audio_input_duration'',
        ''audio_output_duration'', ''has_error'', ''error_message'']"
  by (simp add: field_names_def ConversationEntry_def)

text \<open>
  Claim C5, as the specification states it, fails twice. \<open>ConversationLog\<close> is
  persisted, its constructor validates nothing, and a log with \<^verbatim>\<open>sequence_number\<close> 0 is
  built. \<open>ConversationEntry\<close> declares no \<^verbatim>\<open>sequence_number\<close>: an input that carries
  one of 0 is accepted, and the key is dropped.
\<close>

theorem conversation_sequence_number_unchecked:
  "construct 0 ConversationLog
      [(''test_session_id'', VInt 1), (''sequence_number'', VInt 0),
       (''user_input'', VStr (ustr ''hi'')), (''agent_response'', VStr (ustr ''hello'')),
       (''processing_time'', VDec 12)]
     = Inr [(''id'', VNone), (''test_session_id'', VInt 1), (''sequence_number'', VInt 0),
            (''user_input'', VStr (ustr ''hi'')), (''agent_response'', VStr (ustr ''hello'')),
            (''processing_time'', VDec 12), (''tts_processing_time'', VNone),
            (''stt_processing_time'', VNone), (''llm_processing_time'', VNone),
            (''audio_input_duration'', VNone), (''audio_output_duration'', VNone),
            (''has_error'', VBool False), (''error_message'', VNone),
            (''timestamp'', VDatetime 0)]
   \<and> construct 0 ConversationEntry
        [(''sequence_number'', VInt 0), (''user_input'', VStr (ustr ''hi'')),
         (''agent_response'', VStr (ustr ''hello'')), (''processing_time'', VDec 12)]
       = Inr [(''user_input'', VStr (ustr ''hi'')), (''agent_response'', VStr (ustr ''hello'')),
              (''processing_time'', VDec 12), (''tts_processing_time'', VNone),
              (''stt_processing_time'', VNone), (''llm_processing_time'', VNone),
              (''audio_input_duration'', VNone), (''audio_output_duration'', VNone),
              (''has_error'', VBool False), (''error_message'', VNone)]"
proof -
  have a: "construct 0 ConversationLog
      [(''test_session_id'', VInt 1), (''sequence_number'', VInt 0),
       (''user_input'', VStr (ustr ''hi'')), (''agent_response'', VStr (ustr ''hello'')),
       (''processing_time'', VDec 12)]
     = Inr [(''id'', VNone), (''test_session_id'', VInt 1), (''sequence_number'', VInt 0),
            (''user_input'', VStr (ustr ''hi'')), (''agent_response'', VStr (ustr ''hello'')),
            (''processing_time'', VDec 12), (''tts_processing_time'', VNone),
            (''stt_processing_time'', VNone), (''llm_processing_time'', VNone),
            (''audio_input_duration'', VNone), (''audio_output_duration'', VNone),
            (''has_error'', VBool False), (''error_message'', VNone),
            (''timestamp'', VDatetime 0)]"
    by (simp add: construct_def ConversationLog_def construct_field_def)
  have b: "construct 0 ConversationEntry
        [(''sequence_number'', VInt 0), (''user_input'', VStr (ustr ''hi'')),
         (''agent_response'', VStr (ustr ''hello'')), (''processing_time'', VDec 12)]
       = Inr [(''user_input'', VStr (ustr ''hi'')), (''agent_response'', VStr (ustr ''hello'')),
              (''processing_time'', VDec 12), (''tts_processing_time'', VNone),
              (''stt_processing_time'', VNone), (''llm_processing_time'', VNone),
              (''audio_input_duration'', VNone), (''audio_output_duration'', VNone),
              (''has_error'', VBool False), (''error_message'', VNone)]"
    by (simp add: construct_def validate_def ConversationEntry_def validate_field_def ustr_def)
  show ?thesis by (intro conjI a b)
qed

text \<open>
  Claim C5, amended. Constructing a \<open>ConversationEntry\<close> validates the input, and a
  validated \<open>ConversationEntry\<close> holds no \<^verbatim>\<open>sequence_number\<close>. For
  \<open>ConversationEntry\<close>, and for \<open>ConversationLog\<close> when an input is validated against
  it: every validated record has a \<^verbatim>\<open>processing_time\<close> of at least 0, and each of the
  stage timings \<^verbatim>\<open>tts_processing_time\<close>, \<^verbatim>\<open>stt_processing_time\<close> and
  \<^verbatim>\<open>llm_processing_time\<close> is \<^verbatim>\<open>None\<close> or at least 0; an input that gives one of them a
  negative value is rejected with a validation error for that attribute. Every record
  validated against \<open>ConversationLog\<close> has a \<^verbatim>\<open>sequence_number\<close> of at least 1, and an
  input with a smaller one is rejected with a validation error for
  \<^verbatim>\<open>sequence_number\<close>.
\<close>

theorem conversation_bounds:
  assumes "m = ConversationLog \<or> m = ConversationEntry"
  shows "construct now ConversationEntry inp = validate now ConversationEntry inp
       \<and> (validate now ConversationEntry inp = Inr e \<longrightarrow> map_of e ''sequence_number'' = None)
       \<and> (validate now m inp = Inr r \<longrightarrow>
            (\<exists>p. map_of r ''processing_time'' = Some (VDec p) \<and> 0 \<le> p)
          \<and> (\<forall>k \<in> set stage_timings.
                map_of r k = Some VNone \<or> (\<exists>t. map_of r k = Some (VDec t) \<and> 0 \<le> t)))
       \<and> (validate now ConversationLog inp = Inr r' \<longrightarrow>
            (\<exists>n. map_of r' ''sequence_number'' = Some (VInt n) \<and> 1 \<le> n))
       \<and> (k \<in> set (''processing_time'' # stage_timings) \<and> map_of inp k = Some (VDec t) \<and> t < 0
            \<longrightarrow> (\<exists>es. validate now m inp = Inl es
                     \<and> ValidationError k (Violates (Ge 0)) \<in> set es))
       \<and> (map_of inp ''sequence_number'' = Some (VInt n) \<and> n < 1 \<longrightarrow>
            (\<exists>es. validate now ConversationLog inp = Inl es
                \<and> ValidationError ''sequence_number'' (Violates (Ge 1)) \<in> set es))
       \<and> field_of ConversationEntry ''sequence_number'' = None"
proof -
  have c0: "validate now ConversationEntry inp = Inr e \<longrightarrow> map_of e ''sequence_number'' = None"
    using validate_undeclared[of now ConversationEntry inp e "''sequence_number''"]
    by (simp add: conversation_entry_names)
  have c1: "validate now m inp = Inr r \<longrightarrow>
            (\<exists>p. map_of r ''processing_time'' = Some (VDec p) \<and> 0 \<le> p)
          \<and> (\<forall>k \<in> set stage_timings.
                map_of r k = Some VNone \<or> (\<exists>t. map_of r k = Some (VDec t) \<and> 0 \<le> t))"
    using processing_time_accept[OF assms, of now inp r]
      stage_timing_accept[OF assms, of _ now inp r]
    by blast
  have c2: "validate now ConversationLog inp = Inr r' \<longrightarrow>
            (\<exists>n. map_of r' ''sequence_number'' = Some (VInt n) \<and> 1 \<le> n)"
    using sequence_number_accept[of now inp r'] by blast
  have c3: "k \<in> set (''processing_time'' # stage_timings) \<and> map_of inp k = Some (VDec t) \<and> t < 0
            \<longrightarrow> (\<exists>es. validate now m inp = Inl es
                     \<and> ValidationError k (Violates (Ge 0)) \<in> set es)"
    using timing_reject[OF assms, of k inp t now] by blast
  have c4: "map_of inp ''sequence_number'' = Some (VInt n) \<and> n < 1 \<longrightarrow>
            (\<exists>es. validate now ConversationLog inp = Inl es
                \<and> ValidationError ''sequence_number'' (Violates (Ge 1)) \<in> set es)"
    using sequence_number_reject[of inp n now] by blast
  show ?thesis
    by (intro conjI conversation_entry_request c0 c1 c2 c3 c4 sequence_number_decl(2))
qed

theorem conversation_bounds_witness:
  "(\<exists>es. validate 0 ConversationLog
            [(''test_session_id'', VInt 1), (''sequence_number'', VInt 0),
             (''user_input'', VStr (ustr ''hi'')), (''agent_response'', VStr (ustr ''hello'')),
             (''processing_time'', VDec 12)] = Inl es
        \<and> ValidationError ''sequence_number'' (Violates (Ge 1)) \<in> set es)
   \<and> (\<exists>es. construct 0 ConversationEntry
            [(''user_input'', VStr (ustr ''hi'')), (''agent_response'', VStr (ustr ''hello'')),
             (''processing_time'', VDec 12), (''tts_processing_time'', VDec (- 1 / 2))] = Inl es
        \<and> ValidationError ''tts_processing_time'' (Violates (Ge 0)) \<in> set es)
   \<and> construct 0 ConversationEntry
            [(''user_input'', VStr (ustr ''hi'')), (''agent_response'', VStr (ustr ''hello'')),
             (''processing_time'', VDec 0), (''tts_processing_time'', VDec (1 / 2))]
       = Inr [(''user_input'', VStr (ustr ''hi'')), (''agent_response'', VStr (ustr ''hello'')),
              (''processing_time'', VDec 0), (''tts_processing_time'', VDec (1 / 2)),
              (''stt_processing_time'', VNone), (''llm_processing_time'', VNone),
              (''audio_input_duration'', VNone), (''audio_output_duration'', VNone),
              (''has_error'', VBool False), (''error_message'', VNone)]"
proof -
  let ?log = "[(''test_session_id'', VInt 1), (''sequence_number'', VInt 0),
             (''user_input'', VStr (ustr ''hi'')), (''agent_response'', VStr (ustr ''hello'')),
             (''processing_time'', VDec 12)]"
  let ?entry = "[(''user_input'', VStr (ustr ''hi'')), (''agent_response'', VStr (ustr ''hello'')),
             (''processing_time'', VDec 12), (''tts_processing_time'', VDec (- 1 / 2))]"
  have m1: "ConversationLog = ConversationLog \<or> ConversationLog = ConversationEntry" by simp
  have m2: "ConversationEntry = ConversationLog \<or> ConversationEntry = ConversationEntry" by simp
  have g1: "map_of ?log ''sequence_number'' = Some (VInt 0) \<and> (0 :: int) < 1" by simp
  note t1 = conversation_bounds[OF m1, where now = 0 and inp = ?log and n = 0]
  from t1[THEN conjunct2, THEN conjunct2, THEN conjunct2, THEN conjunct2, THEN conjunct2,
          THEN conjunct1, THEN mp, OF g1]
  have a: "\<exists>es. validate 0 ConversationLog ?log = Inl es
             \<and> ValidationError ''sequence_number'' (Violates (Ge 1)) \<in> set es" .
  have g2: "''tts_processing_time'' \<in> set (''processing_time'' # stage_timings)
          \<and> map_of ?entry ''tts_processing_time'' = Some (VDec (- 1 / 2))
          \<and> (- 1 / 2 :: rat) < 0"
    by (simp add: stage_timings_def)
  note t2 = conversation_bounds[OF m2, where now = 0 and inp = ?entry
      and k = "''tts_processing_time''" and t = "- 1 / 2"]
  from t2[THEN conjunct2, THEN conjunct2, THEN conjunct2, THEN conjunct2, THEN conjunct1,
          THEN mp, OF g2]
  have "\<exists>es. validate 0 ConversationEntry ?entry = Inl es
             \<and> ValidationError ''tts_processing_time'' (Violates (Ge 0)) \<in> set es" .
  then have b: "\<exists>es. construct 0 ConversationEntry ?entry = Inl es
             \<and> ValidationError ''tts_processing_time'' (Violates (Ge 0)) \<in> set es"
    by (simp only: t2[THEN conjunct1])
  have c: "construct 0 ConversationEntry
            [(''user_input'', VStr (ustr ''hi'')), (''agent_response'', VStr (ustr ''hello'')),
             (''processing_time'', VDec 0), (''tts_processing_time'', VDec (1 / 2))]
       = Inr [(''user_input'', VStr (ustr ''hi'')), (''agent_response'', VStr (ustr ''hello'')),
              (''processing_time'', VDec 0), (''tts_processing_time'', VDec (1 / 2)),
              (''stt_processing_time'', VNone), (''llm_processing_time'', VNone),
              (''audio_input_duration'', VNone), (''audio_output_duration'', VNone),
              (''has_error'', VBool False), (''error_message'', VNone)]"
    by (simp add: construct_def validate_def ConversationEntry_def validate_field_def ustr_def)
  show ?thesis by (intro conjI a b c)
qed

section \<open>Enumerations are closed\<close>

lemma enum_values_eqs:
  "enum_values ServiceType = [ustr ''tts'', ustr ''stt'', ustr ''llm'']"
  "enum_values AgentStatus = [ustr ''draft'', ustr ''active'', ustr ''inactive'']"
  "enum_values TestSessionStatus = [ustr ''active'', ustr ''completed'', ustr ''failed'']"
  by (simp_all add: enum_values_def ServiceType_def AgentStatus_def TestSessionStatus_def)

lemma enum_decl:
  assumes "(m, k, e, opt) \<in> set enum_fields"
  shows "\<exists>d. field_of m k
             = Some (FieldDecl k (if opt then TOptional (TEnum e) else TEnum e) d [])
           \<and> (d = Required \<or> (\<exists>s. d = Default (VStr s) \<and> s \<in> set (enum_values e))
                \<or> (opt \<and> d = Default VNone))"
proof -
  have "field_of AIService ''service_type''
          = Some (FieldDecl ''service_type'' (TEnum ServiceType) Required [])"
    by (simp add: field_of_def AIService_def)
  moreover have "field_of AIServiceCreate ''service_type''
          = Some (FieldDecl ''service_type'' (TEnum ServiceType) Required [])"
    by (simp add: field_of_def AIServiceCreate_def)
  moreover have "field_of Agent ''status''
          = Some (FieldDecl ''status'' (TEnum AgentStatus) (Default (VStr (ustr ''draft''))) [])"
    by (simp add: field_of_def Agent_def)
  moreover have "field_of AgentUpdate ''status''
          = Some (FieldDecl ''status'' (TOptional (TEnum AgentStatus)) (Default VNone) [])"
    by (simp add: field_of_def AgentUpdate_def)
  moreover have "field_of TestSession ''status''
          = Some (FieldDecl ''status'' (TEnum TestSessionStatus)
                    (Default (VStr (ustr ''active''))) [])"
    by (simp add: field_of_def TestSession_def)
  moreover have "ustr ''draft'' \<in> set (enum_values AgentStatus)"
    "ustr ''active'' \<in> set (enum_values TestSessionStatus)"
    by (simp_all add: enum_values_eqs)
  ultimately show ?thesis using assms unfolding enum_fields_def by auto
qed

lemma enum_accept:
  assumes k: "(m, k, e, opt) \<in> set enum_fields" and ok: "validate now m inp = Inr r"
  shows "\<exists>v. map_of r k = Some v \<and> (v \<in> VStr ` set (enum_values e) \<or> (opt \<and> v = VNone))"
proof -
  from enum_decl[OF k] obtain d where
    d: "field_of m k = Some (FieldDecl k (if opt then TOptional (TEnum e) else TEnum e) d [])"
       "d = Required \<or> (\<exists>s. d = Default (VStr s) \<and> s \<in> set (enum_values e))
          \<or> (opt \<and> d = Default VNone)"
    by blast
  from validate_accept[OF ok d(1)] obtain v where
    v: "map_of r k = Some v"
       "validate_field now (FieldDecl k (if opt then TOptional (TEnum e) else TEnum e) d [])
          (map_of inp k) = Inr v"
    by blast
  from validate_field_Inr[OF v(2)] d(2)
  have "v \<in> VStr ` set (enum_values e) \<or> (opt \<and> v = VNone)"
    by (auto simp: has_type_TEnum split: if_splits)
  with v(1) show ?thesis by blast
qed

lemma enum_reject:
  assumes k: "(m, k, e, opt) \<in> set enum_fields" and g: "map_of inp k = Some v"
    and out: "v \<notin> VStr ` set (enum_values e)" and set: "\<not> opt \<or> v \<noteq> VNone"
  shows "\<exists>es. validate now m inp = Inl es \<and> ValidationError k WrongType \<in> set es"
proof -
  from enum_decl[OF k] obtain d where
    d: "field_of m k = Some (FieldDecl k (if opt then TOptional (TEnum e) else TEnum e) d [])"
    by blast
  from out set have "\<not> has_type (if opt then TOptional (TEnum e) else TEnum e) v"
    by (auto simp: has_type_TEnum)
  with validate_wrong_type[OF d g, of now] show ?thesis by simp
qed

lemma enum_fields_tables:
  "map (\<lambda>(m, k, e, opt). (mname m, table m)) enum_fields
     = [(''AIService'', True), (''AIServiceCreate'', False), (''Agent'', True),
        (''AgentUpdate'', False), (''TestSession'', True)]"
  by (simp add: enum_fields_def AIService_def AIServiceCreate_def Agent_def AgentUpdate_def
        TestSession_def)

text \<open>
  Claim C4, as the specification states it, fails for the persisted classes:
  \<open>TestSession\<close>, the only class with a session status, validates nothing when it is
  constructed, and a session with the status "paused", which is no value of
  \<open>TestSessionStatus\<close>, is built.
\<close>

theorem test_session_constructed_with_unknown_status:
  "ustr ''paused'' \<notin> set (enum_values TestSessionStatus)
   \<and> construct 0 TestSession
        [(''user_id'', VInt 1), (''agent_id'', VInt 1), (''status'', VStr (ustr ''paused''))]
       = Inr [(''id'', VNone), (''user_id'', VInt 1), (''agent_id'', VInt 1),
              (''status'', VStr (ustr ''paused'')), (''session_data'', VDict []),
              (''total_exchanges'', VInt 0), (''avg_response_time'', VNone),
              (''total_duration'', VNone), (''error_count'', VInt 0), (''last_error'', VNone),
              (''started_at'', VDatetime 0), (''ended_at'', VNone),
              (''created_at'', VDatetime 0)]"
proof -
  have a: "ustr ''paused'' \<notin> set (enum_values TestSessionStatus)"
    by (simp add: enum_values_def TestSessionStatus_def ustr_def)
  have b: "construct 0 TestSession
        [(''user_id'', VInt 1), (''agent_id'', VInt 1), (''status'', VStr (ustr ''paused''))]
       = Inr [(''id'', VNone), (''user_id'', VInt 1), (''agent_id'', VInt 1),
              (''status'', VStr (ustr ''paused'')), (''session_data'', VDict []),
              (''total_exchanges'', VInt 0), (''avg_response_time'', VNone),
              (''total_duration'', VNone), (''error_count'', VInt 0), (''last_error'', VNone),
              (''started_at'', VDatetime 0), (''ended_at'', VNone),
              (''created_at'', VDatetime 0)]"
    by (simp add: construct_def TestSession_def construct_field_def)
  show ?thesis by (intro conjI a b)
qed

text \<open>
  Claim C4, amended. The values of \<open>ServiceType\<close> are tts, stt and llm, those of
  \<open>AgentStatus\<close> are draft, active and inactive, and those of \<open>TestSessionStatus\<close> are
  active, completed and failed. For every attribute that holds one of them
  (\<^verbatim>\<open>service_type\<close> of \<open>AIService\<close> and \<open>AIServiceCreate\<close>, \<^verbatim>\<open>status\<close> of \<open>Agent\<close>,
  \<open>AgentUpdate\<close> and \<open>TestSession\<close>): the value in a validated record is a value of the
  enumeration (or \<^verbatim>\<open>None\<close>, for the optional \<^verbatim>\<open>status\<close> of \<open>AgentUpdate\<close>), and an input
  that gives the attribute any other value is rejected by validation with a validation
  error for that attribute. Constructing one of the request classes \<open>AIServiceCreate\<close>
  and \<open>AgentUpdate\<close> validates the input; \<open>AIService\<close>, \<open>Agent\<close> and \<open>TestSession\<close> are
  persisted classes.
\<close>

theorem enumerations_closed:
  "enum_values ServiceType = [ustr ''tts'', ustr ''stt'', ustr ''llm'']
   \<and> enum_values AgentStatus = [ustr ''draft'', ustr ''active'', ustr ''inactive'']
   \<and> enum_values TestSessionStatus = [ustr ''active'', ustr ''completed'', ustr ''failed'']
   \<and> ((m, k, e, opt) \<in> set enum_fields \<and> validate now m inp = Inr r \<longrightarrow>
        (\<exists>v. map_of r k = Some v \<and> (v \<in> VStr ` set (enum_values e) \<or> (opt \<and> v = VNone))))
   \<and> ((m, k, e, opt) \<in> set enum_fields \<and> map_of inp k = Some v
        \<and> v \<notin> VStr ` set (enum_values e) \<and> (opt \<longrightarrow> v \<noteq> VNone) \<longrightarrow>
        (\<exists>es. validate now m inp = Inl es \<and> ValidationError k WrongType \<in> set es))
   \<and> map (\<lambda>(m, k, e, opt). (mname m, table m)) enum_fields
       = [(''AIService'', True), (''AIServiceCreate'', False), (''Agent'', True),
          (''AgentUpdate'', False), (''TestSession'', True)]
   \<and> (\<not> table m \<longrightarrow> construct now m inp = validate now m inp)"
proof -
  have c4: "(m, k, e, opt) \<in> set enum_fields \<and> validate now m inp = Inr r \<longrightarrow>
        (\<exists>v. map_of r k = Some v \<and> (v \<in> VStr ` set (enum_values e) \<or> (opt \<and> v = VNone)))"
    using enum_accept[of m k e opt now inp r] by blast
  have c5: "(m, k, e, opt) \<in> set enum_fields \<and> map_of inp k = Some v
        \<and> v \<notin> VStr ` set (enum_values e) \<and> (opt \<longrightarrow> v \<noteq> VNone) \<longrightarrow>
        (\<exists>es. validate now m inp = Inl es \<and> ValidationError k WrongType \<in> set es)"
    using enum_reject[of m k e opt inp v now] by blast
  have c7: "\<not> table m \<longrightarrow> construct now m inp = validate now m inp"
    using construct_request[of m now inp] by blast
  show ?thesis by (intro conjI enum_values_eqs c4 c5 enum_fields_tables c7)
qed

theorem enumerations_closed_witness:
  "(\<exists>es. construct 0 AIServiceCreate
            [(''name'', VStr (ustr ''voice'')), (''service_type'', VStr (ustr ''ocr'')),
             (''provider'', VStr (ustr ''Google''))] = Inl es
        \<and> ValidationError ''service_type'' WrongType \<in> set es)
   \<and> construct 0 AIServiceCreate
            [(''name'', VStr (ustr ''voice'')), (''service_type'', VStr (ustr ''tts'')),
             (''provider'', VStr (ustr ''Google''))]
       = Inr [(''name'', VStr (ustr ''voice'')), (''service_type'', VStr (ustr ''tts'')),
              (''provider'', VStr (ustr ''Google'')), (''description'', VStr []),
              (''default_config'', VDict [])]
   \<and> (\<exists>es. validate 0 TestSession
            [(''user_id'', VInt 1), (''agent_id'', VInt 1), (''status'', VStr (ustr ''paused''))]
          = Inl es
        \<and> ValidationError ''status'' WrongType \<in> set es)"
proof -
  let ?inp = "[(''name'', VStr (ustr ''voice'')), (''service_type'', VStr (ustr ''ocr'')),
             (''provider'', VStr (ustr ''Google''))]"
  let ?ts = "[(''user_id'', VInt 1), (''agent_id'', VInt 1), (''status'', VStr (ustr ''paused''))]"
  have g: "(AIServiceCreate, ''service_type'', ServiceType, False) \<in> set enum_fields
         \<and> map_of ?inp ''service_type'' = Some (VStr (ustr ''ocr''))
         \<and> VStr (ustr ''ocr'') \<notin> VStr ` set (enum_values ServiceType)
         \<and> (False \<longrightarrow> VStr (ustr ''ocr'') \<noteq> VNone)"
    by (simp add: enum_fields_def enum_values_def ServiceType_def ustr_def)
  have nt: "\<not> table AIServiceCreate" by (simp add: AIServiceCreate_def)
  note t = enumerations_closed[where m = AIServiceCreate and k = "''service_type''"
      and e = ServiceType and opt = False and inp = ?inp and now = 0
      and v = "VStr (ustr ''ocr'')"]
  note eq = t[THEN conjunct2, THEN conjunct2, THEN conjunct2, THEN conjunct2, THEN conjunct2,
      THEN conjunct2, THEN mp, OF nt]
  from t[THEN conjunct2, THEN conjunct2, THEN conjunct2, THEN conjunct2, THEN conjunct1,
         THEN mp, OF g]
  have "\<exists>es. validate 0 AIServiceCreate ?inp = Inl es
               \<and> ValidationError ''service_type'' WrongType \<in> set es" .
  then have bad: "\<exists>es. construct 0 AIServiceCreate ?inp = Inl es
               \<and> ValidationError ''service_type'' WrongType \<in> set es"
    by (simp only: eq)
  have good: "construct 0 AIServiceCreate
            [(''name'', VStr (ustr ''voice'')), (''service_type'', VStr (ustr ''tts'')),
             (''provider'', VStr (ustr ''Google''))]
       = Inr [(''name'', VStr (ustr ''voice'')), (''service_type'', VStr (ustr ''tts'')),
              (''provider'', VStr (ustr ''Google'')), (''description'', VStr []),
              (''default_config'', VDict [])]"
    by (simp add: construct_def validate_def AIServiceCreate_def validate_field_def ustr_def
          enum_values_def ServiceType_def)
  have g': "(TestSession, ''status'', TestSessionStatus, False) \<in> set enum_fields
         \<and> map_of ?ts ''status'' = Some (VStr (ustr ''paused''))
         \<and> VStr (ustr ''paused'') \<notin> VStr ` set (enum_values TestSessionStatus)
         \<and> (False \<longrightarrow> VStr (ustr ''paused'') \<noteq> VNone)"
    by (simp add: enum_fields_def enum_values_def TestSessionStatus_def ustr_def)
  note t' = enumerations_closed[where m = TestSession and k = "''status''"
      and e = TestSessionStatus and opt = False and inp = ?ts and now = 0
      and v = "VStr (ustr ''paused'')"]
  from t'[THEN conjunct2, THEN conjunct2, THEN conjunct2, THEN conjunct2, THEN conjunct1,
         THEN mp, OF g']
  have ts: "\<exists>es. validate 0 TestSession ?ts = Inl es
               \<and> ValidationError ''status'' WrongType \<in> set es" .
  show ?thesis by (intro conjI bad good ts)
qed

section \<open>Request classes against their persisted counterparts\<close>

lemmas payload_defs =
  payload_of_def mirrors_field_def optional_variant_def field_names_def

lemma payload_of_user: "payload_of UserUpdate User"
  by (simp add: payload_defs UserUpdate_def User_def)

lemma payload_of_agent: "payload_of AgentCreate Agent" "payload_of AgentUpdate Agent"
  by (simp_all add: payload_defs AgentCreate_def AgentUpdate_def Agent_def)

lemma payload_of_service_config:
  "payload_of ServiceConfigCreate AgentServiceConfig"
  "payload_of ServiceConfigUpdate AgentServiceConfig"
  by (simp_all add: payload_defs ServiceConfigCreate_def ServiceConfigUpdate_def
        AgentServiceConfig_def)

lemma payload_of_api_key: "payload_of APIKeyCreate APIKey" "payload_of APIKeyUpdate APIKey"
  by (simp_all add: payload_defs APIKeyCreate_def APIKeyUpdate_def APIKey_def)

lemma payload_of_test_session: "payload_of TestSessionCreate TestSession"
  by (simp add: payload_defs TestSessionCreate_def TestSession_def)

lemma payload_of_conversation: "payload_of ConversationEntry ConversationLog"
  by (simp add: payload_defs ConversationEntry_def ConversationLog_def)

lemma payload_of_ai_service:
  "payload_of AIServiceCreate AIService" "payload_of AIServiceUpdate AIService"
  by (simp_all add: payload_defs AIServiceCreate_def AIServiceUpdate_def AIService_def)

lemma user_create_fields:
  "filter (\<lambda>f. \<not> mirrors_field User f) (model_fields UserCreate)
     = [FieldDecl ''password'' TStr Required [MinLength 8, MaxLength 100]]"
  "''password'' \<notin> set (field_names User)"
  "list_ex (\<lambda>g. fname g \<notin> set (field_names UserCreate)) (model_fields User)"
  by (simp_all add: payload_defs UserCreate_def User_def)

text \<open>
  Claim C7, as the specification states it, fails for \<open>UserCreate\<close>: its attribute
  \<^verbatim>\<open>password\<close> is no attribute of \<open>User\<close>, which stores \<^verbatim>\<open>password_hash\<close>.
\<close>

theorem user_create_not_payload_of_user: "\<not> payload_of UserCreate User"
  by (simp add: payload_defs UserCreate_def User_def)

text \<open>
  Claim C7, amended. Each of the eleven request classes other than \<open>UserCreate\<close>
  declares only attributes of its persisted counterpart, each with the type it has
  there or the optional variant of that type, and the counterpart has an attribute more.
  \<open>UserCreate\<close> does so for \<^verbatim>\<open>email\<close>, \<^verbatim>\<open>username\<close> and \<^verbatim>\<open>full_name\<close>; its fourth
  attribute, \<^verbatim>\<open>password\<close>, is the only one that is no attribute of \<open>User\<close>.
\<close>

theorem payload_shapes:
  "payload_counterparts =
     [(UserCreate, User), (UserUpdate, User),
      (AgentCreate, Agent), (AgentUpdate, Agent),
      (ServiceConfigCreate, AgentServiceConfig), (ServiceConfigUpdate, AgentServiceConfig),
      (APIKeyCreate, APIKey), (APIKeyUpdate, APIKey),
      (TestSessionCreate, TestSession),
      (ConversationEntry, ConversationLog),
      (AIServiceCreate, AIService), (AIServiceUpdate, AIService)]
   \<and> list_all (\<lambda>(p, e). payload_of p e) (tl payload_counterparts)
   \<and> filter (\<lambda>f. \<not> mirrors_field User f) (model_fields UserCreate)
       = [FieldDecl ''password'' TStr Required [MinLength 8, MaxLength 100]]
   \<and> ''password'' \<notin> set (field_names User)
   \<and> list_ex (\<lambda>g. fname g \<notin> set (field_names UserCreate)) (model_fields User)"
proof -
  have "list_all (\<lambda>(p, e). payload_of p e) (tl payload_counterparts)"
    unfolding payload_counterparts_def
    using payload_of_user payload_of_agent payload_of_service_config payload_of_api_key
      payload_of_test_session payload_of_conversation payload_of_ai_service
    by simp
  then show ?thesis
    using user_create_fields by (simp add: payload_counterparts_def)
qed

section \<open>Applying update payloads\<close>

lemma map_of_apply_update:
  "map_of (apply_update row upd) k
     = map_option (\<lambda>v. case map_of upd k of
                          None \<Rightarrow> v
                        | Some u \<Rightarrow> if u = VNone then v else u) (map_of row k)"
  by (induction row) (auto simp: apply_update_def split: option.splits)

lemma apply_update_frame:
  "map_of upd k = None \<or> map_of upd k = Some VNone \<Longrightarrow>
     map_of (apply_update row upd) k = map_of row k"
  by (cases "map_of row k") (auto simp: map_of_apply_update)

lemma apply_update_all_none:
  assumes "list_all (\<lambda>(k, v). v = VNone) upd"
  shows "apply_update row upd = row"
proof -
  have "\<And>k u. map_of upd k = Some u \<Longrightarrow> u = VNone"
    using assms by (auto simp: list_all_iff dest: map_of_SomeD)
  then have "\<And>k v. (case map_of upd k of None \<Rightarrow> v | Some u \<Rightarrow> if u = VNone then v else u) = v"
    by (auto split: option.splits)
  then show ?thesis by (simp add: apply_update_def)
qed

lemma satisfies_VNone: "satisfies c VNone"
  by (cases c) simp_all

lemma validate_field_unset:
  assumes "fdefault f = Default VNone" "has_type (ftyp f) VNone" "g = None \<or> g = Some VNone"
  shows "validate_field now f g = Inr VNone"
  using assms(3)
proof
  assume "g = None"
  with assms(1) show ?thesis by (simp add: validate_field_def)
next
  assume "g = Some VNone"
  with assms(2) show ?thesis
    by (simp add: validate_field_ok list_all_iff satisfies_VNone)
qed

lemma validate_fields_unset:
  assumes "list_all (\<lambda>f. fdefault f = Default VNone \<and> has_type (ftyp f) VNone) fs"
    and "\<forall>f \<in> set fs. map_of inp (fname f) = None \<or> map_of inp (fname f) = Some VNone"
  shows "validate_fields now fs inp = Inr (map (\<lambda>f. (fname f, VNone)) fs)"
  using assms by (induction fs) (simp_all add: validate_field_unset)

lemma update_models_optional:
  assumes "um \<in> set update_models"
  shows "list_all (\<lambda>f. fdefault f = Default VNone \<and> has_type (ftyp f) VNone) (model_fields um)"
proof -
  have "list_all (\<lambda>f. fdefault f = Default VNone \<and> has_type (ftyp f) VNone)
          (model_fields UserUpdate)"
    by (simp add: UserUpdate_def)
  moreover have "list_all (\<lambda>f. fdefault f = Default VNone \<and> has_type (ftyp f) VNone)
          (model_fields AgentUpdate)"
    by (simp add: AgentUpdate_def)
  moreover have "list_all (\<lambda>f. fdefault f = Default VNone \<and> has_type (ftyp f) VNone)
          (model_fields ServiceConfigUpdate)"
    by (simp add: ServiceConfigUpdate_def)
  moreover have "list_all (\<lambda>f. fdefault f = Default VNone \<and> has_type (ftyp f) VNone)
          (model_fields APIKeyUpdate)"
    by (simp add: APIKeyUpdate_def)
  moreover have "list_all (\<lambda>f. fdefault f = Default VNone \<and> has_type (ftyp f) VNone)
          (model_fields AIServiceUpdate)"
    by (simp add: AIServiceUpdate_def)
  ultimately show ?thesis using assms unfolding update_models_def by auto
qed

lemma field_of_None_iff: "(field_of m k = None) = (k \<notin> set (field_names m))"
  by (auto simp: field_of_def field_names_def find_None_iff)

lemma validated_unset:
  assumes um: "um \<in> set update_models" and ok: "validate now um inp = Inr u"
    and g: "map_of inp k = None \<or> map_of inp k = Some VNone"
  shows "map_of u k = None \<or> map_of u k = Some VNone"
proof (cases "field_of um k")
  case None
  then have "k \<notin> set (field_names um)" by (simp add: field_of_None_iff)
  from validate_undeclared[OF ok this] show ?thesis by simp
next
  case (Some f)
  from validate_accept[OF ok Some] obtain v where
    v: "map_of u k = Some v" "validate_field now f (map_of inp k) = Inr v" by blast
  from field_of_member[OF Some] update_models_optional[OF um]
  have "fdefault f = Default VNone" "has_type (ftyp f) VNone"
    by (auto simp: list_all_iff)
  from validate_field_unset[OF this g, of now] v show ?thesis by simp
qed

lemma update_frame_undeclared:
  assumes "validate now um inp = Inr u" "k \<notin> set (field_names um)"
  shows "map_of (apply_update row u) k = map_of row k"
  using validate_undeclared[OF assms] by (simp add: apply_update_frame)

lemma updates_frame_undeclared:
  assumes "k \<notin> set (field_names um)"
    and "\<forall>u \<in> set us. \<exists>now inp. validate now um inp = Inr u"
  shows "map_of (foldl apply_update row us) k = map_of row k"
  using assms(2)
proof (induction us arbitrary: row)
  case Nil
  then show ?case by simp
next
  case (Cons u us)
  from Cons.prems obtain now inp where "validate now um inp = Inr u" by auto
  from update_frame_undeclared[OF this assms(1)]
  have "map_of (apply_update row u) k = map_of row k" .
  moreover from Cons.prems have "\<forall>u \<in> set us. \<exists>now inp. validate now um inp = Inr u" by simp
  from Cons.IH[OF this] have
    "map_of (foldl apply_update (apply_update row u) us) k = map_of (apply_update row u) k" .
  ultimately show ?case by simp
qed

lemma agent_update_unset:
  assumes "\<forall>k \<in> set (field_names AgentUpdate). map_of inp k = None \<or> map_of inp k = Some VNone"
  shows "\<exists>u. validate now AgentUpdate inp = Inr u \<and> apply_update row u = row"
proof -
  have um: "AgentUpdate \<in> set update_models" by (simp add: update_models_def)
  from assms have "\<forall>f \<in> set (model_fields AgentUpdate).
      map_of inp (fname f) = None \<or> map_of inp (fname f) = Some VNone"
    by (simp add: field_names_def)
  from validate_fields_unset[OF update_models_optional[OF um] this, of now]
  have u: "validate now AgentUpdate inp
             = Inr (map (\<lambda>f. (fname f, VNone)) (model_fields AgentUpdate))"
    by (simp add: validate_def)
  have "list_all (\<lambda>(k, v). v = VNone) (map (\<lambda>f. (fname f, VNone)) (model_fields AgentUpdate))"
    by (simp add: list_all_iff)
  from apply_update_all_none[OF this, of row] u show ?thesis by simp
qed

text \<open>
  Claim C6. An \<open>AgentUpdate\<close> in which every attribute is unset (absent or \<^verbatim>\<open>None\<close>)
  validates, and applying it to a record leaves the record as it is. For every update
  class, an attribute that is unset in the input leaves the attribute of the record
  unchanged when the validated payload is applied.
\<close>

theorem unset_leaves_unchanged:
  "((\<forall>k \<in> set (field_names AgentUpdate). map_of inp k = None \<or> map_of inp k = Some VNone)
      \<longrightarrow> (\<exists>u. validate now AgentUpdate inp = Inr u \<and> apply_update row u = row))
   \<and> (um \<in> set update_models \<and> validate now' um inp' = Inr u'
        \<and> (map_of inp' k = None \<or> map_of inp' k = Some VNone)
      \<longrightarrow> map_of (apply_update row' u') k = map_of row' k)"
proof -
  have c1: "(\<forall>k \<in> set (field_names AgentUpdate). map_of inp k = None \<or> map_of inp k = Some VNone)
      \<longrightarrow> (\<exists>u. validate now AgentUpdate inp = Inr u \<and> apply_update row u = row)"
    using agent_update_unset[of inp now row] by blast
  have c2: "um \<in> set update_models \<and> validate now' um inp' = Inr u'
        \<and> (map_of inp' k = None \<or> map_of inp' k = Some VNone)
      \<longrightarrow> map_of (apply_update row' u') k = map_of row' k"
    using validated_unset[of um now' inp' u' k] apply_update_frame[of u' k row'] by blast
  show ?thesis by (intro conjI c1 c2)
qed

theorem unset_leaves_unchanged_witness:
  "(\<exists>u. validate 0 AgentUpdate [] = Inr u
       \<and> apply_update [(''id'', VInt 1), (''name'', VStr (ustr ''bot'')),
                        (''status'', VStr (ustr ''draft'')), (''voice_pitch'', VDec 1)] u
           = [(''id'', VInt 1), (''name'', VStr (ustr ''bot'')),
              (''status'', VStr (ustr ''draft'')), (''voice_pitch'', VDec 1)])
   \<and> validate 0 AgentUpdate [(''name'', VStr (ustr ''bot2'')), (''voice_pitch'', VNone)]
       = Inr [(''name'', VStr (ustr ''bot2'')), (''description'', VNone),
              (''system_message'', VNone), (''voice_pitch'', VNone), (''voice_speed'', VNone),
              (''voice_volume'', VNone), (''response_timeout'', VNone),
              (''max_conversation_length'', VNone), (''status'', VNone)]
   \<and> apply_update [(''id'', VInt 1), (''name'', VStr (ustr ''bot'')),
                    (''status'', VStr (ustr ''draft'')), (''voice_pitch'', VDec 1)]
        [(''name'', VStr (ustr ''bot2'')), (''description'', VNone),
         (''system_message'', VNone), (''voice_pitch'', VNone), (''voice_speed'', VNone),
         (''voice_volume'', VNone), (''response_timeout'', VNone),
         (''max_conversation_length'', VNone), (''status'', VNone)]
       = [(''id'', VInt 1), (''name'', VStr (ustr ''bot2'')),
          (''status'', VStr (ustr ''draft'')), (''voice_pitch'', VDec 1)]"
proof -
  let ?row = "[(''id'', VInt 1), (''name'', VStr (ustr ''bot'')),
               (''status'', VStr (ustr ''draft'')), (''voice_pitch'', VDec 1)]"
  have g: "\<forall>k \<in> set (field_names AgentUpdate). map_of [] k = None \<or> map_of [] k = Some VNone"
    by simp
  note t = unset_leaves_unchanged[where inp = "[]" and now = 0 and row = ?row]
  from t[THEN conjunct1, THEN mp, OF g]
  have a: "\<exists>u. validate 0 AgentUpdate [] = Inr u \<and> apply_update ?row u = ?row" .
  have b: "validate 0 AgentUpdate [(''name'', VStr (ustr ''bot2'')), (''voice_pitch'', VNone)]
       = Inr [(''name'', VStr (ustr ''bot2'')), (''description'', VNone),
              (''system_message'', VNone), (''voice_pitch'', VNone), (''voice_speed'', VNone),
              (''voice_volume'', VNone), (''response_timeout'', VNone),
              (''max_conversation_length'', VNone), (''status'', VNone)]"
    by (simp add: validate_def AgentUpdate_def validate_field_def ustr_def)
  have c: "apply_update ?row
        [(''name'', VStr (ustr ''bot2'')), (''description'', VNone),
         (''system_message'', VNone), (''voice_pitch'', VNone), (''voice_speed'', VNone),
         (''voice_volume'', VNone), (''response_timeout'', VNone),
         (''max_conversation_length'', VNone), (''status'', VNone)]
       = [(''id'', VInt 1), (''name'', VStr (ustr ''bot2'')),
          (''status'', VStr (ustr ''draft'')), (''voice_pitch'', VDec 1)]"
    by (simp add: apply_update_def ustr_def)
  show ?thesis by (intro conjI a b c)
qed

section \<open>What the update classes cannot change\<close>

lemma ai_service_update_names:
  "field_names AIServiceUpdate = [''name'', ''description'', ''is_active'', ''default_config'']"
  by (simp add: field_names_def AIServiceUpdate_def)

lemma service_type_created:
  assumes "validate now AIService inp = Inr row"
  shows "\<exists>s. map_of inp ''service_type'' = Some (VStr s) \<and> s \<in> set (enum_values ServiceType)
            \<and> map_of row ''service_type'' = Some (VStr s)"
proof -
  have "field_of AIService ''service_type''
          = Some (FieldDecl ''service_type'' (TEnum ServiceType) Required [])"
    by (simp add: field_of_def AIService_def)
  from validate_accept[OF assms this] obtain v where
    v: "map_of row ''service_type'' = Some v"
       "validate_field now (FieldDecl ''service_type'' (TEnum ServiceType) Required [])
          (map_of inp ''service_type'') = Inr v"
    by blast
  from validate_field_Inr[OF v(2)] v(1) show ?thesis
    by (auto simp: has_type_TEnum)
qed

text \<open>
  Claim C9. \<open>AIServiceUpdate\<close> declares \<^verbatim>\<open>name\<close>, \<^verbatim>\<open>description\<close>, \<^verbatim>\<open>is_active\<close> and
  \<^verbatim>\<open>default_config\<close>, and no \<^verbatim>\<open>service_type\<close>: a validated payload holds no
  \<^verbatim>\<open>service_type\<close>, whatever the input gave, and applying it leaves the
  \<^verbatim>\<open>service_type\<close> of a record as it is. So the \<^verbatim>\<open>service_type\<close> of an \<open>AIService\<close>
  record, after any sequence of updates, is the member of \<open>ServiceType\<close> it was created
  with.
\<close>

theorem service_type_fixed:
  "field_names AIServiceUpdate = [''name'', ''description'', ''is_active'', ''default_config'']
   \<and> (validate now AIServiceUpdate inp = Inr u \<longrightarrow>
        map_of u ''service_type'' = None
        \<and> map_of (apply_update row u) ''service_type'' = map_of row ''service_type'')
   \<and> (validate now0 AIService inp0 = Inr row0
        \<and> (\<forall>u \<in> set us. \<exists>now inp. validate now AIServiceUpdate inp = Inr u) \<longrightarrow>
        (\<exists>s. map_of inp0 ''service_type'' = Some (VStr s) \<and> s \<in> set (enum_values ServiceType)
            \<and> map_of (foldl apply_update row0 us) ''service_type'' = Some (VStr s)))"
proof -
  have nd: "''service_type'' \<notin> set (field_names AIServiceUpdate)"
    by (simp add: ai_service_update_names)
  have c2: "validate now AIServiceUpdate inp = Inr u \<longrightarrow>
        map_of u ''service_type'' = None
        \<and> map_of (apply_update row u) ''service_type'' = map_of row ''service_type''"
    using validate_undeclared[OF _ nd, of now inp u]
      update_frame_undeclared[OF _ nd, of now inp u row]
    by blast
  have c3: "validate now0 AIService inp0 = Inr row0
        \<and> (\<forall>u \<in> set us. \<exists>now inp. validate now AIServiceUpdate inp = Inr u) \<longrightarrow>
        (\<exists>s. map_of inp0 ''service_type'' = Some (VStr s) \<and> s \<in> set (enum_values ServiceType)
            \<and> map_of (foldl apply_update row0 us) ''service_type'' = Some (VStr s))"
  proof (intro impI, elim conjE)
    assume ok: "validate now0 AIService inp0 = Inr row0"
      and us: "\<forall>u \<in> set us. \<exists>now inp. validate now AIServiceUpdate inp = Inr u"
    from service_type_created[OF ok] obtain s where
      s: "map_of inp0 ''service_type'' = Some (VStr s)" "s \<in> set (enum_values ServiceType)"
         "map_of row0 ''service_type'' = Some (VStr s)"
      by blast
    from updates_frame_undeclared[OF nd us, of row0] s(3)
    have "map_of (foldl apply_update row0 us) ''service_type'' = Some (VStr s)" by simp
    with s(1,2) show "\<exists>s. map_of inp0 ''service_type'' = Some (VStr s)
        \<and> s \<in> set (enum_values ServiceType)
        \<and> map_of (foldl apply_update row0 us) ''service_type'' = Some (VStr s)"
      by blast
  qed
  show ?thesis by (intro conjI ai_service_update_names c2 c3)
qed

theorem service_type_fixed_witness:
  "validate 0 AIServiceUpdate
      [(''service_type'', VStr (ustr ''stt'')), (''name'', VStr (ustr ''renamed''))]
     = Inr [(''name'', VStr (ustr ''renamed'')), (''description'', VNone),
            (''is_active'', VNone), (''default_config'', VNone)]
   \<and> map_of (apply_update
               [(''id'', VInt 1), (''name'', VStr (ustr ''voice'')),
                (''service_type'', VStr (ustr ''tts''))]
               [(''name'', VStr (ustr ''renamed'')), (''description'', VNone),
                (''is_active'', VNone), (''default_config'', VNone)]) ''service_type''
       = Some (VStr (ustr ''tts''))
   \<and> map_of (apply_update
               [(''id'', VInt 1), (''name'', VStr (ustr ''voice'')),
                (''service_type'', VStr (ustr ''tts''))]
               [(''name'', VStr (ustr ''renamed'')), (''description'', VNone),
                (''is_active'', VNone), (''default_config'', VNone)]) ''name''
       = Some (VStr (ustr ''renamed''))"
proof -
  let ?inp = "[(''service_type'', VStr (ustr ''stt'')), (''name'', VStr (ustr ''renamed''))]"
  let ?u = "[(''name'', VStr (ustr ''renamed'')), (''description'', VNone),
             (''is_active'', VNone), (''default_config'', VNone)]"
  let ?row = "[(''id'', VInt 1), (''name'', VStr (ustr ''voice'')),
               (''service_type'', VStr (ustr ''tts''))]"
  have a: "validate 0 AIServiceUpdate ?inp = Inr ?u"
    by (simp add: validate_def AIServiceUpdate_def validate_field_def ustr_def)
  note t = service_type_fixed[where now = 0 and inp = ?inp and u = ?u and row = ?row]
  from t[THEN conjunct2, THEN conjunct1, THEN mp, OF a]
  have "map_of (apply_update ?row ?u) ''service_type'' = map_of ?row ''service_type''"
    by (rule conjunct2)
  then have b: "map_of (apply_update ?row ?u) ''service_type'' = Some (VStr (ustr ''tts''))"
    by simp
  have c: "map_of (apply_update ?row ?u) ''name'' = Some (VStr (ustr ''renamed''))"
    by (simp add: apply_update_def ustr_def)
  show ?thesis by (intro conjI a b c)
qed

lemma user_update_names: "field_names UserUpdate = [''full_name'', ''username'']"
  by (simp add: field_names_def UserUpdate_def)

text \<open>
  Claim C10. \<open>UserUpdate\<close> declares \<^verbatim>\<open>full_name\<close> and \<^verbatim>\<open>username\<close> and nothing else.
  Applying a validated \<open>UserUpdate\<close> to a record leaves every other attribute as it
  is, and so does any sequence of them: in particular \<^verbatim>\<open>email\<close>, \<^verbatim>\<open>password_hash\<close>,
  \<^verbatim>\<open>is_active\<close> and \<^verbatim>\<open>created_at\<close> keep their values.
\<close>

theorem user_update_frame:
  "field_names UserUpdate = [''full_name'', ''username'']
   \<and> (k \<noteq> ''full_name'' \<and> k \<noteq> ''username'' \<and> validate now UserUpdate inp = Inr u \<longrightarrow>
        map_of (apply_update row u) k = map_of row k)
   \<and> (k' \<in> set [''email'', ''password_hash'', ''is_active'', ''created_at'']
        \<and> (\<forall>u \<in> set us. \<exists>now inp. validate now UserUpdate inp = Inr u) \<longrightarrow>
        map_of (foldl apply_update row us) k' = map_of row k')"
proof -
  have c2: "k \<noteq> ''full_name'' \<and> k \<noteq> ''username'' \<and> validate now UserUpdate inp = Inr u \<longrightarrow>
        map_of (apply_update row u) k = map_of row k"
  proof (intro impI, elim conjE)
    assume "k \<noteq> ''full_name''" "k \<noteq> ''username''" and ok: "validate now UserUpdate inp = Inr u"
    then have "k \<notin> set (field_names UserUpdate)" by (simp add: user_update_names)
    from update_frame_undeclared[OF ok this]
    show "map_of (apply_update row u) k = map_of row k" .
  qed
  have c3: "k' \<in> set [''email'', ''password_hash'', ''is_active'', ''created_at'']
        \<and> (\<forall>u \<in> set us. \<exists>now inp. validate now UserUpdate inp = Inr u) \<longrightarrow>
        map_of (foldl apply_update row us) k' = map_of row k'"
  proof (intro impI, elim conjE)
    assume k: "k' \<in> set [''email'', ''password_hash'', ''is_active'', ''created_at'']"
      and us: "\<forall>u \<in> set us. \<exists>now inp. validate now UserUpdate inp = Inr u"
    from k have "k' \<notin> set (field_names UserUpdate)" by (auto simp: user_update_names)
    from updates_frame_undeclared[OF this us]
    show "map_of (foldl apply_update row us) k' = map_of row k'" .
  qed
  show ?thesis by (intro conjI user_update_names c2 c3)
qed

theorem user_update_frame_witness:
  "validate 0 UserUpdate [(''email'', VStr (ustr ''x@y.zz'')), (''username'', VStr (ustr ''bob''))]
     = Inr [(''full_name'', VNone), (''username'', VStr (ustr ''bob''))]
   \<and> map_of (apply_update
               [(''id'', VInt 1), (''email'', VStr (ustr ''a@b.co'')),
                (''username'', VStr (ustr ''alice'')), (''full_name'', VStr (ustr ''Alice''))]
               [(''full_name'', VNone), (''username'', VStr (ustr ''bob''))]) ''email''
       = Some (VStr (ustr ''a@b.co''))
   \<and> apply_update
        [(''id'', VInt 1), (''email'', VStr (ustr ''a@b.co'')),
         (''username'', VStr (ustr ''alice'')), (''full_name'', VStr (ustr ''Alice''))]
        [(''full_name'', VNone), (''username'', VStr (ustr ''bob''))]
       = [(''id'', VInt 1), (''email'', VStr (ustr ''a@b.co'')),
          (''username'', VStr (ustr ''bob'')), (''full_name'', VStr (ustr ''Alice''))]"
proof -
  let ?inp = "[(''email'', VStr (ustr ''x@y.zz'')), (''username'', VStr (ustr ''bob''))]"
  let ?u = "[(''full_name'', VNone), (''username'', VStr (ustr ''bob''))]"
  let ?row = "[(''id'', VInt 1), (''email'', VStr (ustr ''a@b.co'')),
               (''username'', VStr (ustr ''alice'')), (''full_name'', VStr (ustr ''Alice''))]"
  have a: "validate 0 UserUpdate ?inp = Inr ?u"
    by (simp add: validate_def UserUpdate_def validate_field_def ustr_def)
  have g: "''email'' \<noteq> ''full_name'' \<and> ''email'' \<noteq> ''username''
             \<and> validate 0 UserUpdate ?inp = Inr ?u"
    using a by simp
  note t = user_update_frame[where now = 0 and inp = ?inp and u = ?u and row = ?row
      and k = "''email''"]
  from t[THEN conjunct2, THEN conjunct1, THEN mp, OF g]
  have b: "map_of (apply_update ?row ?u) ''email'' = Some (VStr (ustr ''a@b.co''))"
    by simp
  have c: "apply_update ?row ?u
       = [(''id'', VInt 1), (''email'', VStr (ustr ''a@b.co'')),
          (''username'', VStr (ustr ''bob'')), (''full_name'', VStr (ustr ''Alice''))]"
    by (simp add: apply_update_def ustr_def)
  show ?thesis by (intro conjI a b c)
qed

section \<open>The stored tables\<close>

lemma create_Inr:
  "create now m rows inp = Inr rows' \<Longrightarrow>
     \<exists>new. validate now m inp = Inr new \<and> taken m rows new = [] \<and> rows' = rows @ [new]"
  by (auto simp: create_def split: sum.splits list.splits)

lemma update_Inr:
  "update now m um rows i inp = Inr rows' \<Longrightarrow>
     i < length rows \<and>
     (\<exists>u. validate now um inp = Inr u
         \<and> taken m (take i rows @ drop (Suc i) rows) (apply_update (rows ! i) u) = []
         \<and> rows' = rows[i := apply_update (rows ! i) u])"
  by (auto simp: update_def Let_def split: if_splits sum.splits list.splits)

lemma taken_Nil:
  "(taken m rows new = [])
     = (\<forall>k \<in> set (unique_fields m). \<forall>r \<in> set rows. map_of r k \<noteq> map_of new k)"
  by (auto simp: taken_def filter_empty_conv list_ex_iff)

lemma taken_member:
  "k \<in> set (unique_fields m) \<Longrightarrow> r \<in> set rows \<Longrightarrow> map_of r k = map_of new k \<Longrightarrow>
     k \<in> set (taken m rows new)"
  by (auto simp: taken_def list_ex_iff)

lemma distinct_map_update:
  assumes "distinct (map f xs)" "i < length xs"
    and "\<forall>x \<in> set (take i xs @ drop (Suc i) xs). f x \<noteq> f y"
  shows "distinct (map f (xs[i := y]))"
proof -
  from assms(2) have xs: "xs = take i xs @ xs ! i # drop (Suc i) xs"
    by (rule id_take_nth_drop)
  from assms(2) have upd: "xs[i := y] = take i xs @ y # drop (Suc i) xs"
    by (rule upd_conv_take_nth_drop)
  from assms(1) have "distinct (map f (take i xs @ xs ! i # drop (Suc i) xs))"
    using xs by simp
  then have "distinct (map f (take i xs)) \<and> distinct (map f (drop (Suc i) xs))
      \<and> f ` set (take i xs) \<inter> f ` set (drop (Suc i) xs) = {}"
    by auto
  with assms(3) show ?thesis unfolding upd by auto
qed

lemma create_unique:
  assumes "create now m rows inp = Inr rows'" "k \<in> set (unique_fields m)"
    "distinct (map (\<lambda>r. map_of r k) rows)"
  shows "distinct (map (\<lambda>r. map_of r k) rows')"
proof -
  from create_Inr[OF assms(1)] obtain new where
    new: "taken m rows new = []" "rows' = rows @ [new]" by blast
  from new(1) assms(2) have "\<forall>r \<in> set rows. map_of r k \<noteq> map_of new k"
    by (simp add: taken_Nil)
  with assms(3) show ?thesis unfolding new(2) by auto
qed

lemma update_unique:
  assumes "update now m um rows i inp = Inr rows'" "k \<in> set (unique_fields m)"
    "distinct (map (\<lambda>r. map_of r k) rows)"
  shows "distinct (map (\<lambda>r. map_of r k) rows')"
proof -
  from update_Inr[OF assms(1)] obtain u where
    i: "i < length rows"
    and t: "taken m (take i rows @ drop (Suc i) rows) (apply_update (rows ! i) u) = []"
    and r: "rows' = rows[i := apply_update (rows ! i) u]"
    by blast
  from t assms(2) have "\<forall>x \<in> set (take i rows @ drop (Suc i) rows).
      map_of x k \<noteq> map_of (apply_update (rows ! i) u) k"
    by (simp only: taken_Nil) blast
  from distinct_map_update[OF assms(3) i this] show ?thesis unfolding r .
qed

lemma step_unique:
  assumes "step now m um rows op = Inr rows'" "k \<in> set (unique_fields m)"
    "distinct (map (\<lambda>r. map_of r k) rows)"
  shows "distinct (map (\<lambda>r. map_of r k) rows')"
  using assms by (cases op) (auto intro: create_unique update_unique)

lemma reachable_unique:
  assumes "reachable m um rows" "k \<in> set (unique_fields m)"
  shows "distinct (map (\<lambda>r. map_of r k) rows)"
  using assms
proof (induction rule: reachable.induct)
  case (empty m um)
  then show ?case by simp
next
  case (step m um rows now op rows')
  from step_unique[OF step.hyps(2) step.prems] step.IH[OF step.prems] show ?case by simp
qed

lemma create_conflict:
  assumes "validate now m inp = Inr new" "k \<in> set (unique_fields m)" "r \<in> set rows"
    "map_of r k = map_of new k"
  shows "\<exists>es. create now m rows inp = Inl es \<and> UniquenessConflict k \<in> set es"
proof -
  from taken_member[OF assms(2,3,4)] have k: "k \<in> set (taken m rows new)" .
  then have "taken m rows new \<noteq> []" by auto
  then have "create now m rows inp = Inl (map UniquenessConflict (taken m rows new))"
    using assms(1) by (simp add: create_def split: list.splits)
  moreover from k have "UniquenessConflict k \<in> set (map UniquenessConflict (taken m rows new))"
    by simp
  ultimately show ?thesis by blast
qed

lemma unique_fields_eqs:
  "unique_fields User = [''email'', ''username'']"
  "unique_fields APIKey = [''key_hash'']"
  by (simp_all add: unique_fields_def User_def APIKey_def)

text \<open>
  Claim C2. The attributes declared unique are \<^verbatim>\<open>email\<close> and \<^verbatim>\<open>username\<close> for \<open>User\<close>
  and \<^verbatim>\<open>key_hash\<close> for \<open>APIKey\<close>. In every reachable table of users no two records
  share an e-mail address or a user name, and in every reachable table of keys no two
  records share a key hash. A create whose validated record has the value of a unique
  attribute that a stored record already has fails with a uniqueness conflict for that
  attribute; a failed create returns no table, so no record is added.
\<close>

theorem unique_fields_stay_unique:
  "unique_fields User = [''email'', ''username'']
   \<and> unique_fields APIKey = [''key_hash'']
   \<and> (reachable User UserUpdate users \<longrightarrow>
        distinct (map (\<lambda>r. map_of r ''email'') users)
        \<and> distinct (map (\<lambda>r. map_of r ''username'') users))
   \<and> (reachable APIKey APIKeyUpdate keys \<longrightarrow>
        distinct (map (\<lambda>r. map_of r ''key_hash'') keys))
   \<and> (validate now m inp = Inr new \<and> k \<in> set (unique_fields m) \<and> r \<in> set rows
        \<and> map_of r k = map_of new k \<longrightarrow>
        (\<exists>es. create now m rows inp = Inl es \<and> UniquenessConflict k \<in> set es))"
proof -
  have c3: "reachable User UserUpdate users \<longrightarrow>
        distinct (map (\<lambda>r. map_of r ''email'') users)
        \<and> distinct (map (\<lambda>r. map_of r ''username'') users)"
    using reachable_unique[of User UserUpdate users "''email''"]
      reachable_unique[of User UserUpdate users "''username''"]
    by (simp add: unique_fields_eqs)
  have c4: "reachable APIKey APIKeyUpdate keys \<longrightarrow>
        distinct (map (\<lambda>r. map_of r ''key_hash'') keys)"
    using reachable_unique[of APIKey APIKeyUpdate keys "''key_hash''"]
    by (simp add: unique_fields_eqs)
  have c5: "validate now m inp = Inr new \<and> k \<in> set (unique_fields m) \<and> r \<in> set rows
        \<and> map_of r k = map_of new k \<longrightarrow>
        (\<exists>es. create now m rows inp = Inl es \<and> UniquenessConflict k \<in> set es)"
    using create_conflict[of now m inp new k r rows] by blast
  show ?thesis by (intro conjI unique_fields_eqs c3 c4 c5)
qed

theorem unique_fields_stay_unique_witness:
  "create 0 User []
      [(''email'', VStr (ustr ''a@b.co'')), (''username'', VStr (ustr ''alice'')),
       (''full_name'', VStr (ustr ''Alice'')), (''password_hash'', VStr (ustr ''h1''))]
     = Inr [[(''id'', VNone), (''email'', VStr (ustr ''a@b.co'')),
             (''username'', VStr (ustr ''alice'')), (''full_name'', VStr (ustr ''Alice'')),
             (''password_hash'', VStr (ustr ''h1'')), (''is_active'', VBool True),
             (''created_at'', VDatetime 0), (''updated_at'', VDatetime 0)]]
   \<and> reachable User UserUpdate
        [[(''id'', VNone), (''email'', VStr (ustr ''a@b.co'')),
          (''username'', VStr (ustr ''alice'')), (''full_name'', VStr (ustr ''Alice'')),
          (''password_hash'', VStr (ustr ''h1'')), (''is_active'', VBool True),
          (''created_at'', VDatetime 0), (''updated_at'', VDatetime 0)]]
   \<and> (\<exists>es. create 1 User
              [[(''id'', VNone), (''email'', VStr (ustr ''a@b.co'')),
                (''username'', VStr (ustr ''alice'')), (''full_name'', VStr (ustr ''Alice'')),
                (''password_hash'', VStr (ustr ''h1'')), (''is_active'', VBool True),
                (''created_at'', VDatetime 0), (''updated_at'', VDatetime 0)]]
              [(''email'', VStr (ustr ''c@d.ee'')), (''username'', VStr (ustr ''alice'')),
               (''full_name'', VStr (ustr ''Other'')), (''password_hash'', VStr (ustr ''h2''))]
            = Inl es
          \<and> UniquenessConflict ''username'' \<in> set es)"
proof -
  let ?alice = "[(''email'', VStr (ustr ''a@b.co'')), (''username'', VStr (ustr ''alice'')),
       (''full_name'', VStr (ustr ''Alice'')), (''password_hash'', VStr (ustr ''h1''))]"
  let ?row = "[(''id'', VNone), (''email'', VStr (ustr ''a@b.co'')),
             (''username'', VStr (ustr ''alice'')), (''full_name'', VStr (ustr ''Alice'')),
             (''password_hash'', VStr (ustr ''h1'')), (''is_active'', VBool True),
             (''created_at'', VDatetime 0), (''updated_at'', VDatetime 0)]"
  let ?other = "[(''email'', VStr (ustr ''c@d.ee'')), (''username'', VStr (ustr ''alice'')),
               (''full_name'', VStr (ustr ''Other'')), (''password_hash'', VStr (ustr ''h2''))]"
  let ?new = "[(''id'', VNone), (''email'', VStr (ustr ''c@d.ee'')),
             (''username'', VStr (ustr ''alice'')), (''full_name'', VStr (ustr ''Other'')),
             (''password_hash'', VStr (ustr ''h2'')), (''is_active'', VBool True),
             (''created_at'', VDatetime 1), (''updated_at'', VDatetime 1)]"
  have v1: "validate 0 User ?alice = Inr ?row"
    by (simp add: validate_def User_def validate_field_def ustr_def email_regex_def in_class_def)
  have v2: "validate 1 User ?other = Inr ?new"
    by (simp add: validate_def User_def validate_field_def ustr_def email_regex_def in_class_def)
  have a: "create 0 User [] ?alice = Inr [?row]"
    by (simp add: create_def v1 taken_def)
  have "step 0 User UserUpdate [] (Create ?alice) = Inr [?row]"
    using a by simp
  from reachable.step[OF reachable.empty this]
  have b: "reachable User UserUpdate [?row]" .
  have g: "validate 1 User ?other = Inr ?new \<and> ''username'' \<in> set (unique_fields User)
         \<and> ?row \<in> set [?row] \<and> map_of ?row ''username'' = map_of ?new ''username''"
    using v2 by (simp add: unique_fields_def User_def)
  note t = unique_fields_stay_unique[where now = 1 and m = User and inp = ?other
      and new = ?new and k = "''username''" and r = ?row and rows = "[?row]"]
  from t[THEN conjunct2, THEN conjunct2, THEN conjunct2, THEN conjunct2, THEN mp, OF g]
  have c: "\<exists>es. create 1 User [?row] ?other = Inl es
             \<and> UniquenessConflict ''username'' \<in> set es" .
  show ?thesis by (intro conjI a b c)
qed

section \<open>The usage counter of an API key\<close>


lemma api_key_update_names:
  "field_names APIKeyUpdate
     = [''name'', ''is_active'', ''expires_at'', ''rate_limit_per_hour'', ''rate_limit_per_day'']"
  by (simp add: field_names_def APIKeyUpdate_def)

lemma usage_count_undeclared: "''usage_count'' \<notin> set (field_names APIKeyUpdate)"
  by (simp add: api_key_update_names)


text \<open>
  In the stored table, no operation writes the counter: a create appends a record, and
  an update applies a payload that holds no \<^verbatim>\<open>usage_count\<close>.
\<close>

lemma step_usage_frame:
  assumes "step now APIKey APIKeyUpdate rows op = Inr rows'"
  shows "length rows \<le> length rows'
       \<and> (\<forall>j < length rows. map_of (rows' ! j) ''usage_count'' = map_of (rows ! j) ''usage_count'')"
proof (cases op)
  case (Create inp)
  with assms have "create now APIKey rows inp = Inr rows'" by simp
  from create_Inr[OF this] obtain new where "rows' = rows @ [new]" by blast
  then show ?thesis by (simp add: nth_append)
next
  case (Update i inp)
  with assms have "update now APIKey APIKeyUpdate rows i inp = Inr rows'" by simp
  from update_Inr[OF this] obtain u where
    i: "i < length rows" and u: "validate now APIKeyUpdate inp = Inr u"
    and r: "rows' = rows[i := apply_update (rows ! i) u]"
    by blast
  from update_frame_undeclared[OF u usage_count_undeclared]
  have "map_of (apply_update (rows ! i) u) ''usage_count'' = map_of (rows ! i) ''usage_count''" .
  with i show ?thesis unfolding r by (auto simp: nth_list_update)
qed

lemma run_usage_frame:
  "length rows \<le> length (run APIKey APIKeyUpdate rows ops)
   \<and> (\<forall>j < length rows. map_of (run APIKey APIKeyUpdate rows ops ! j) ''usage_count''
                          = map_of (rows ! j) ''usage_count'')"
proof (induction ops arbitrary: rows)
  case Nil
  then show ?case by simp
next
  case (Cons a ops)
  obtain now op where a: "a = (now, op)" by (cases a)
  show ?case
  proof (cases "step now APIKey APIKeyUpdate rows op")
    case (Inl es)
    with Cons.IH[of rows] a show ?thesis by simp
  next
    case (Inr rows')
    from step_usage_frame[OF Inr] Cons.IH[of rows'] a Inr show ?thesis by auto
  qed
qed






end
